theory Spec2Isabelle
  imports Main "HOL-Library.Word"
begin

unbundle bit_operations_syntax

section \<open>Machine types\<close>

type_synonym u8 = "8 word"
type_synonym u16 = "16 word"
type_synonym u32 = "32 word"
type_synonym u64 = "64 word"

section \<open>std::map as a key-ordered association list\<close>

text \<open>
  A \<^verbatim>\<open>std::map<K, V>\<close> is modelled by the list of its entries in iteration order, that is
  in strictly increasing key order. An iterator is the index of an entry, \<open>begin()\<close> is 0
  and \<open>end()\<close> is the length of the list.
\<close>

type_synonym ('k, 'v) std_map = "('k \<times> 'v) list"

definition std_map_ok :: "('k::linorder, 'v) std_map \<Rightarrow> bool" where
  "std_map_ok m = sorted_wrt (<) (map fst m)"

text \<open>\<^verbatim>\<open>m.find (k)\<close>: the mapped value, \<open>None\<close> for \<^verbatim>\<open>m.end ()\<close>.\<close>

definition std_map_find :: "('k, 'v) std_map \<Rightarrow> 'k \<Rightarrow> 'v option" where
  "std_map_find m k = map_of m k"

text \<open>
  \<^verbatim>\<open>m.insert ({k, v})\<close> and \<^verbatim>\<open>m.emplace (k, v)\<close>: the entry is added at its place in key
  order unless the key is already present, in which case the map is left as it is.
\<close>

fun std_map_insert :: "'k::linorder \<Rightarrow> 'v \<Rightarrow> ('k, 'v) std_map \<Rightarrow> ('k, 'v) std_map" where
  "std_map_insert k v [] = [(k, v)]"
| "std_map_insert k v ((k', v') # m) =
     (if k < k' then (k, v) # (k', v') # m
      else if k = k' then (k', v') # m
      else (k', v') # std_map_insert k v m)"

text \<open>\<^verbatim>\<open>it->second = v\<close> for the iterator \<open>it\<close> at key \<open>k\<close>.\<close>

fun std_map_assign :: "'k \<Rightarrow> 'v \<Rightarrow> ('k, 'v) std_map \<Rightarrow> ('k, 'v) std_map" where
  "std_map_assign k v [] = []"
| "std_map_assign k v ((k', v') # m) =
     (if k' = k then (k', v) # m else (k', v') # std_map_assign k v m)"

text \<open>\<^verbatim>\<open>m.upper_bound (k)\<close>: the index of the first entry whose key is greater than \<open>k\<close>.\<close>

definition std_map_upper_bound :: "'k::linorder \<Rightarrow> ('k, 'v) std_map \<Rightarrow> nat" where
  "std_map_upper_bound k m = length (takeWhile (\<lambda>e. fst e \<le> k) m)"

section \<open>HSAHandleMemoryFault.cpp\<close>

subsection \<open>The wave-state store\<close>

text \<open>
  The structures \<^verbatim>\<open>WaveStateInfo\<close>, \<^verbatim>\<open>QueueInfo\<close> and \<^verbatim>\<open>GPUAgentInfo\<close> are declared in
  \<^verbatim>\<open>HSADebugInfo.h\<close>. The fields the scan reads or writes are named as in the code; all
  remaining members of a wave and of a queue are carried in \<open>wave_other\<close> and
  \<open>queue_other\<close>. The \<^verbatim>\<open>pNext\<close>-linked lists are lists; a \<^verbatim>\<open>WaveStateInfo*\<close> is the
  position of the node: the index of its queue in the agent's queue list and its index in
  that queue's wave list.
\<close>

datatype AgentStatus = AGENT_STATUS_UNSUPPORTED | AGENT_STATUS_OTHER nat

datatype QueueStatus = QUEUE_STATUS_FAILURE | QUEUE_STATUS_OTHER nat

record 'w WaveStateInfo =
  regs_pc :: u64
  regs_trapsts :: u32
  wave_other :: 'w

record ('w, 'q) QueueInfo =
  queueStatus :: QueueStatus
  pWaveList :: "'w WaveStateInfo list"
  queue_other :: 'q

record ('w, 'q) GPUAgentInfo =
  nodeId :: u32
  agentStatus :: AgentStatus
  pQueueList :: "('w, 'q) QueueInfo list"

type_synonym wave_ptr = "nat \<times> nat"

type_synonym faulty_map = "(u64, u64 \<times> wave_ptr) std_map"

subsection \<open>FindFaultyWaves\<close>

text \<open>
  The body of \<^verbatim>\<open>if (SQ_WAVE_TRAPSTS_XNACK_ERROR (pWave->regs.trapsts))\<close> after the program
  counter has been advanced: \<open>pc\<close> is the advanced program counter and \<open>p\<close> the wave.
\<close>

definition update_faulty_waves :: "u64 \<Rightarrow> wave_ptr \<Rightarrow> faulty_map \<Rightarrow> faulty_map" where
  "update_faulty_waves pc p faultyWaves =
     (case std_map_find faultyWaves pc of
        Some (n, r) \<Rightarrow> std_map_assign pc (n + 1, r) faultyWaves
      | None \<Rightarrow> std_map_insert pc (1, p) faultyWaves)"

text \<open>
  The inner loop \<^verbatim>\<open>while (pWave != nullptr)\<close> over the waves of queue number \<open>qi\<close>, from
  wave number \<open>wi\<close> on. The macro \<^verbatim>\<open>SQ_WAVE_TRAPSTS_XNACK_ERROR\<close> is defined in a header and
  is the parameter \<open>xnack\<close>. The result is the wave list after the loop, the queue status
  after the loop and the map after the loop.
\<close>

fun scan_waves ::
  "(u32 \<Rightarrow> bool) \<Rightarrow> nat \<Rightarrow> nat \<Rightarrow> 'w WaveStateInfo list \<Rightarrow> QueueStatus \<Rightarrow> faulty_map
     \<Rightarrow> 'w WaveStateInfo list \<times> QueueStatus \<times> faulty_map" where
  "scan_waves xnack qi wi [] st faultyWaves = ([], st, faultyWaves)"
| "scan_waves xnack qi wi (w # ws) st faultyWaves =
     (if xnack (regs_trapsts w) then
        let w' = w\<lparr>regs_pc := regs_pc w + 0x8\<rparr>;
            (ws', st', m') =
              scan_waves xnack qi (wi + 1) ws QUEUE_STATUS_FAILURE
                (update_faulty_waves (regs_pc w') (qi, wi) faultyWaves)
        in (w' # ws', st', m')
      else
        let (ws', st', m') = scan_waves xnack qi (wi + 1) ws st faultyWaves
        in (w # ws', st', m'))"

text \<open>The outer loop \<^verbatim>\<open>while (pQueue != nullptr)\<close>, from queue number \<open>qi\<close> on.\<close>

fun scan_queues ::
  "(u32 \<Rightarrow> bool) \<Rightarrow> nat \<Rightarrow> ('w, 'q) QueueInfo list \<Rightarrow> faulty_map
     \<Rightarrow> ('w, 'q) QueueInfo list \<times> faulty_map" where
  "scan_queues xnack qi [] faultyWaves = ([], faultyWaves)"
| "scan_queues xnack qi (q # qs) faultyWaves =
     (let (ws', st', m') = scan_waves xnack qi 0 (pWaveList q) (queueStatus q) faultyWaves;
          q' = q\<lparr>queueStatus := st', pWaveList := ws'\<rparr>;
          (qs', m'') = scan_queues xnack (qi + 1) qs m'
      in (q' # qs', m''))"

text \<open>
  \<^verbatim>\<open>FindFaultyWaves\<close>, for the agent that \<^verbatim>\<open>GetAgentFromList\<close> returns for the node of the
  recorded event. The result is the agent after the scan and the returned map.
\<close>

definition FindFaultyWaves ::
  "(u32 \<Rightarrow> bool) \<Rightarrow> ('w, 'q) GPUAgentInfo \<Rightarrow> ('w, 'q) GPUAgentInfo \<times> faulty_map" where
  "FindFaultyWaves xnack pAgent =
     (if agentStatus pAgent = AGENT_STATUS_UNSUPPORTED then (pAgent, [])
      else
        let (qs', faultyWaves) = scan_queues xnack 0 (pQueueList pAgent) []
        in (pAgent\<lparr>pQueueList := qs'\<rparr>, faultyWaves))"

subsection \<open>Traversal order and fault sites\<close>

text \<open>
  The vocabulary in which the properties of the scan are stated. \<open>traversal\<close> lists the
  waves of a queue list in the order in which the two loops visit them, each with its
  position; \<open>faulty_sites\<close> keeps the waves whose trap status has the XNACK error flag and
  gives for each the program counter advanced by 8 together with the position of the wave;
  \<open>site_count\<close> counts the fault sites with a given advanced program counter.
  \<open>advance_wave\<close> is one wave after the scan has passed it.
\<close>

definition advance_wave :: "(u32 \<Rightarrow> bool) \<Rightarrow> 'w WaveStateInfo \<Rightarrow> 'w WaveStateInfo" where
  "advance_wave xnack w = (if xnack (regs_trapsts w) then w\<lparr>regs_pc := regs_pc w + 8\<rparr> else w)"

definition queue_waves ::
  "nat \<Rightarrow> nat \<Rightarrow> 'w WaveStateInfo list \<Rightarrow> (wave_ptr \<times> 'w WaveStateInfo) list" where
  "queue_waves qi wi ws = map (\<lambda>(i, w). ((qi, i), w)) (enumerate wi ws)"

definition traversal ::
  "nat \<Rightarrow> ('w, 'q) QueueInfo list \<Rightarrow> (wave_ptr \<times> 'w WaveStateInfo) list" where
  "traversal qi qs = concat (map (\<lambda>(i, q). queue_waves i 0 (pWaveList q)) (enumerate qi qs))"

definition faulty_sites ::
  "(u32 \<Rightarrow> bool) \<Rightarrow> (wave_ptr \<times> 'w WaveStateInfo) list \<Rightarrow> (u64 \<times> wave_ptr) list" where
  "faulty_sites xnack t =
     map (\<lambda>(p, w). (regs_pc w + 8, p)) (filter (\<lambda>(p, w). xnack (regs_trapsts w)) t)"

definition site_count :: "u64 \<Rightarrow> (u64 \<times> wave_ptr) list \<Rightarrow> nat" where
  "site_count k xs = length (filter (\<lambda>e. fst e = k) xs)"

text \<open>
  The macro \<^verbatim>\<open>SQ_WAVE_TRAPSTS_XNACK_ERROR\<close> is a parameter of the scan. Concrete
  evaluations use this instance, which reads the flag from bit 28 of the trap status.
\<close>

definition xnack_bit28 :: "u32 \<Rightarrow> bool" where
  "xnack_bit28 trapsts = bit trapsts 28"

text \<open>
  A sample agent with three queues and five waves; three of the waves have the XNACK error
  flag set, two of them at the same program counter.
\<close>

definition sample_agent :: "AgentStatus \<Rightarrow> (unit, unit) GPUAgentInfo" where
  "sample_agent st =
     \<lparr>nodeId = 1, agentStatus = st,
      pQueueList =
        [\<lparr>queueStatus = QUEUE_STATUS_OTHER 0,
          pWaveList = [\<lparr>regs_pc = 0x1000, regs_trapsts = 0x10000000, wave_other = ()\<rparr>,
                       \<lparr>regs_pc = 0x2000, regs_trapsts = 0, wave_other = ()\<rparr>],
          queue_other = ()\<rparr>,
         \<lparr>queueStatus = QUEUE_STATUS_OTHER 0,
          pWaveList = [\<lparr>regs_pc = 0x2000, regs_trapsts = 0x100, wave_other = ()\<rparr>],
          queue_other = ()\<rparr>,
         \<lparr>queueStatus = QUEUE_STATUS_OTHER 0,
          pWaveList = [\<lparr>regs_pc = 0x3000, regs_trapsts = 0x10000000, wave_other = ()\<rparr>,
                       \<lparr>regs_pc = 0x1000, regs_trapsts = 0x10000100, wave_other = ()\<rparr>],
          queue_other = ()\<rparr>]\<rparr>"

subsection \<open>PrintVMFaultInfo\<close>

datatype DebugAgentEventType = DEBUG_AGENT_EVENT_MEMORY_FAULT | DEBUG_AGENT_EVENT_OTHER nat

record MemoryFaultData =
  mf_nodeId :: u32
  virtualAddress :: u64
  faultReasonMask :: u32

record DebugAgentEventInfo =
  eventType :: DebugAgentEventType
  memoryFault :: MemoryFaultData

text \<open>What \<^verbatim>\<open>operator<<\<close> writes for an unsigned integer: decimal, and with
  \<^verbatim>\<open>std::hex << std::uppercase\<close>.\<close>

definition digit_char :: "nat \<Rightarrow> char" where
  "digit_char d = ''0123456789ABCDEF'' ! d"

function show_dec :: "nat \<Rightarrow> string" where
  "show_dec n = (if n < 10 then [digit_char n] else show_dec (n div 10) @ [digit_char (n mod 10)])"
  by pat_completeness auto
termination
  by (relation "measure id") auto

function show_hex_upper :: "nat \<Rightarrow> string" where
  "show_hex_upper n =
     (if n < 16 then [digit_char n] else show_hex_upper (n div 16) @ [digit_char (n mod 16)])"
  by pat_completeness auto
termination
  by (relation "measure id") auto

declare show_dec.simps [simp del]
declare show_hex_upper.simps [simp del]

datatype agent_message = AGENT_ERROR string | AGENT_PRINT string

text \<open>
  \<^verbatim>\<open>PrintVMFaultInfo\<close> reads the global \<^verbatim>\<open>_r_rocm_debug_info.pDebugAgentEvent\<close>, the
  argument here (\<open>None\<close> for \<^verbatim>\<open>nullptr\<close>), and hands one message to the log.
\<close>

definition PrintVMFaultInfo :: "DebugAgentEventInfo option \<Rightarrow> agent_message" where
  "PrintVMFaultInfo pDebugAgentEvent =
     (case pDebugAgentEvent of
        None \<Rightarrow> AGENT_ERROR ''Can not find memory fault info when print''
      | Some ev \<Rightarrow>
          if eventType ev \<noteq> DEBUG_AGENT_EVENT_MEMORY_FAULT
          then AGENT_ERROR ''Wrong event type when print memory fault info''
          else
            let memoryFaultInfo = memoryFault ev;
                fault_page_idx = drop_bit 0xC (virtualAddress memoryFaultInfo);
                err = ''\<newline>'';
                err = err @ ''Memory access fault at GPU Node: ''
                          @ show_dec (unat (mf_nodeId memoryFaultInfo)) @ ''\<newline>'';
                err = err @ ''Address: 0x'' @ show_hex_upper (unat fault_page_idx) @ ''xxx ('';
                err = (if (faultReasonMask memoryFaultInfo AND 0x00000001) > 0
                       then err @ ''page not present;'' else err);
                err = (if (faultReasonMask memoryFaultInfo AND 0x00000010) > 0
                       then err @ ''write access to a read-only page;'' else err);
                err = (if (faultReasonMask memoryFaultInfo AND 0x00000100) > 0
                       then err @ ''execute access to a non-executable page;'' else err);
                err = (if (faultReasonMask memoryFaultInfo AND 0x00001000) > 0
                       then err @ ''access to host access only;'' else err);
                err = (if (faultReasonMask memoryFaultInfo AND 0x00010000) > 0
                       then err @ ''uncorrectable ECC failure;'' else err);
                err = (if (faultReasonMask memoryFaultInfo AND 0x00100000) > 0
                       then err @ ''can't determine the exact fault address;'' else err);
                err = err @ '')\<newline>\<newline>''
            in AGENT_PRINT err)"

section \<open>code\_object.cpp\<close>

subsection \<open>std::string operations and the C library\<close>

text \<open>
  Positions are \<^verbatim>\<open>size_t\<close> values, here natural numbers below \<open>2 ^ 64\<close>; \<open>npos\<close> is the
  largest of them. A search returns \<open>None\<close> where the C++ function returns \<^verbatim>\<open>npos\<close>, and
  \<open>size_t_of\<close> gives the number that the code then computes with.
\<close>

definition npos :: nat where
  "npos = 2 ^ 64 - 1"

definition size_t_of :: "nat option \<Rightarrow> nat" where
  "size_t_of p = (case p of None \<Rightarrow> npos | Some i \<Rightarrow> i)"

text \<open>The first position from \<open>i\<close> on at which the rest of the string satisfies \<open>P\<close>.\<close>

fun find_at :: "(string \<Rightarrow> bool) \<Rightarrow> string \<Rightarrow> nat \<Rightarrow> nat option" where
  "find_at P [] i = (if P [] then Some i else None)"
| "find_at P (c # cs) i = (if P (c # cs) then Some i else find_at P cs (i + 1))"

text \<open>\<^verbatim>\<open>s.find (pat, pos)\<close>, \<^verbatim>\<open>s.find (c, pos)\<close> and \<^verbatim>\<open>s.find_first_of (cs, pos)\<close>.\<close>

definition str_find :: "string \<Rightarrow> string \<Rightarrow> nat \<Rightarrow> nat option" where
  "str_find s pat pos =
     (if pos > length s then None
      else find_at (\<lambda>r. take (length pat) r = pat) (drop pos s) pos)"

definition str_find_char :: "string \<Rightarrow> char \<Rightarrow> nat \<Rightarrow> nat option" where
  "str_find_char s c pos =
     (if pos > length s then None
      else find_at (\<lambda>r. case r of [] \<Rightarrow> False | x # _ \<Rightarrow> x = c) (drop pos s) pos)"

definition str_find_first_of :: "string \<Rightarrow> string \<Rightarrow> nat \<Rightarrow> nat option" where
  "str_find_first_of s cs pos =
     (if pos > length s then None
      else find_at (\<lambda>r. case r of [] \<Rightarrow> False | x # _ \<Rightarrow> x \<in> set cs) (drop pos s) pos)"

text \<open>\<^verbatim>\<open>s.substr (pos, n)\<close>: \<open>None\<close> where it throws \<^verbatim>\<open>std::out_of_range\<close>.\<close>

definition substr :: "string \<Rightarrow> nat \<Rightarrow> nat \<Rightarrow> string option" where
  "substr s pos n = (if pos > length s then None else Some (take n (drop pos s)))"

text \<open>\<^verbatim>\<open>std::tolower\<close>, \<^verbatim>\<open>std::isxdigit\<close> and \<^verbatim>\<open>isspace\<close> in the C locale.\<close>

definition tolower :: "char \<Rightarrow> char" where
  "tolower c =
     (if of_char c \<ge> (0x41::nat) \<and> of_char c \<le> (0x5A::nat) then char_of (of_char c + (0x20::nat)) else c)"

text \<open>The value of a digit or letter as a digit of a number, as \<^verbatim>\<open>strtoul\<close> reads it.\<close>

definition digit_val :: "char \<Rightarrow> nat option" where
  "digit_val c =
     (let n = (of_char c :: nat) in
      if 0x30 \<le> n \<and> n \<le> 0x39 then Some (n - 0x30)
      else if 0x61 \<le> n \<and> n \<le> 0x7A then Some (n - 0x61 + 10)
      else if 0x41 \<le> n \<and> n \<le> 0x5A then Some (n - 0x41 + 10)
      else None)"

definition is_digit_of :: "nat \<Rightarrow> char \<Rightarrow> bool" where
  "is_digit_of base c = (case digit_val c of None \<Rightarrow> False | Some d \<Rightarrow> d < base)"

definition isxdigit :: "char \<Rightarrow> bool" where
  "isxdigit c = is_digit_of 16 c"

definition isspace :: "char \<Rightarrow> bool" where
  "isspace c = ((of_char c :: nat) = 0x20 \<or> (0x09 \<le> (of_char c :: nat) \<and> (of_char c :: nat) \<le> 0x0D))"

text \<open>The number that the longest prefix of digits of the base denotes, after \<open>acc\<close>.\<close>

fun parse_digits :: "nat \<Rightarrow> string \<Rightarrow> nat \<Rightarrow> nat" where
  "parse_digits base [] acc = acc"
| "parse_digits base (c # cs) acc =
     (case digit_val c of
        None \<Rightarrow> acc
      | Some d \<Rightarrow> if d < base then parse_digits base cs (acc * base + d) else acc)"

text \<open>
  \<^verbatim>\<open>std::stoul (str, nullptr, 0)\<close>, that is \<^verbatim>\<open>strtoul\<close> with base 0: white space, an optional
  sign, then a hexadecimal number after \<^verbatim>\<open>0x\<close>, an octal number after \<^verbatim>\<open>0\<close>, a decimal number
  otherwise; a negated value wraps around. \<open>None\<close> where \<^verbatim>\<open>std::stoul\<close> throws
  (\<^verbatim>\<open>std::invalid_argument\<close> without a digit, \<^verbatim>\<open>std::out_of_range\<close> above \<^verbatim>\<open>ULONG_MAX\<close>).
\<close>

definition stoul :: "string \<Rightarrow> nat option" where
  "stoul str =
     (let s1 = dropWhile isspace str;
          neg = (case s1 of [] \<Rightarrow> False | c # _ \<Rightarrow> c = CHR ''-'');
          s2 = (case s1 of [] \<Rightarrow> [] | c # r \<Rightarrow> if c = CHR ''-'' \<or> c = CHR ''+'' then r else s1);
          hex = (case s2 of
                   z # x # h # _ \<Rightarrow> z = CHR ''0'' \<and> (x = CHR ''x'' \<or> x = CHR ''X'') \<and> isxdigit h
                 | _ \<Rightarrow> False);
          base = (if hex then 16 else if take 1 s2 = ''0'' then 8 else 10);
          s3 = (if hex then drop 2 s2 else s2)
      in case s3 of
           [] \<Rightarrow> None
         | c # _ \<Rightarrow>
             if \<not> is_digit_of base c then None
             else let v = parse_digits base s3 0
                  in if v > npos then None
                     else Some (if neg then (2 ^ 64 - v) mod 2 ^ 64 else v))"

subsection \<open>Parsing the URI\<close>

text \<open>The loop that %-decodes the path.\<close>

fun percent_decode :: "string \<Rightarrow> string" where
  "percent_decode (c # h # l # cs) =
     (if c = CHR ''%'' \<and> isxdigit h \<and> isxdigit l
      then char_of (the (digit_val h) * 16 + the (digit_val l)) # percent_decode cs
      else c # percent_decode (h # l # cs))"
| "percent_decode (c # cs) = c # percent_decode cs"
| "percent_decode [] = []"

text \<open>
  The loop \<^verbatim>\<open>while ((pos = m_uri.find ('&', last)) != std::string::npos)\<close> with the statement
  after it; \<open>last'\<close> (the variable \<^verbatim>\<open>last\<close>) is a position in the string here, the case
  \<^verbatim>\<open>last == npos\<close> is in
  \<open>parse_uri\<close>.
\<close>

function tokenize :: "string \<Rightarrow> nat \<Rightarrow> string list" where
  "tokenize uri last' =
     (case str_find_char uri CHR ''&'' last' of
        Some pos \<Rightarrow>
          (if last' \<le> pos \<and> pos < length uri
           then take (pos - last') (drop last' uri) # tokenize uri (pos + 1)
           else [])
      | None \<Rightarrow> [drop last' uri])"
  by pat_completeness auto
termination
  by (relation "measure (\<lambda>(uri, l). length uri - l)") auto

declare tokenize.simps [simp del]

text \<open>
  \<^verbatim>\<open>params.emplace (tag, value)\<close> on the \<^verbatim>\<open>std::unordered_map\<close>: the first value of a tag
  stays. The table is an association list, looked up with \<open>map_of\<close>.
\<close>

definition params_emplace :: "string \<Rightarrow> string \<Rightarrow> (string \<times> string) list \<Rightarrow> (string \<times> string) list" where
  "params_emplace tag val params =
     (if map_of params tag = None then params @ [(tag, val)] else params)"

definition add_token :: "string \<Rightarrow> (string \<times> string) list \<Rightarrow> (string \<times> string) list" where
  "add_token token params =
     (case str_find_char token CHR ''='' 0 of
        Some delim \<Rightarrow> params_emplace (take delim token) (drop (delim + 1) token) params
      | None \<Rightarrow> params)"

datatype error =
    Out_of_range          \<comment> \<open>\<^verbatim>\<open>std::out_of_range\<close> leaves the function\<close>
  | Assertion_failed      \<comment> \<open>\<^verbatim>\<open>agent_assert\<close> fails\<close>
  | Empty_optional        \<comment> \<open>\<^verbatim>\<open>operator->\<close> or \<^verbatim>\<open>operator*\<close> on a \<^verbatim>\<open>std::optional\<close> without a value\<close>
  | Fatal_error           \<comment> \<open>\<^verbatim>\<open>agent_error\<close>\<close>

record parsed_uri =
  protocol :: string
  decoded_path :: string
  params :: "(string \<times> string) list"

text \<open>
  The first part of \<^verbatim>\<open>code_object_t::open\<close>, up to the tag-value map. The two calls of
  \<^verbatim>\<open>substr\<close> that take the path throw when their position is beyond the end of the URI, and
  they are outside the \<^verbatim>\<open>try\<close> block.
\<close>

definition parse_uri :: "string \<Rightarrow> error + parsed_uri" where
  "parse_uri m_uri =
     (let protocol_end = size_t_of (str_find m_uri ''://'' 0);
          protocol = take protocol_end m_uri;
          protocol_end = (protocol_end + length ''://'') mod 2 ^ 64;
          protocol = map tolower protocol;
          path_end = str_find_first_of m_uri ''#?'' protocol_end;
          path = (case path_end of
                    Some e \<Rightarrow> substr m_uri protocol_end (e - protocol_end)
                  | None \<Rightarrow> substr m_uri protocol_end npos)
      in case path of
           None \<Rightarrow> Inl Out_of_range
         | Some path \<Rightarrow>
             let decoded_path = percent_decode path;
                 tokens = (case path_end of Some e \<Rightarrow> tokenize m_uri (e + 1) | None \<Rightarrow> []);
                 params = fold add_token tokens []
             in Inr \<lparr>protocol = protocol, decoded_path = decoded_path, params = params\<rparr>)"

subsection \<open>The code object and its collaborators\<close>

text \<open>
  What libelf and libdw return for a file, as far as the code looks at it. A program header
  or a line that the library fails to deliver is \<open>None\<close>.
\<close>

record GElf_Phdr =
  p_type :: u32
  p_vaddr :: u64
  p_memsz :: u64

record GElf_Sym =
  st_name :: string     \<comment> \<open>the string that \<^verbatim>\<open>elf_strptr\<close> returns for the name\<close>
  st_info :: u8
  st_shndx :: u16
  st_value :: u64
  st_size :: u64

record Elf_Scn =
  sh_type :: u32
  scn_data :: "GElf_Sym list option"   \<comment> \<open>\<^verbatim>\<open>elf_getdata\<close>, and its entries read by \<^verbatim>\<open>gelf_getsym\<close>\<close>

record Elf =
  elf_phdrs :: "GElf_Phdr option list option"
     \<comment> \<open>\<open>None\<close>: \<^verbatim>\<open>elf_getphdrnum\<close> fails; entry \<open>i\<close>: what \<^verbatim>\<open>gelf_getphdr\<close> returns for \<open>i\<close>\<close>
  elf_sections :: "Elf_Scn list"   \<comment> \<open>the sections in the order of \<^verbatim>\<open>elf_nextscn\<close>\<close>

record Dwarf_Line =
  line_addr :: "u64 option"    \<comment> \<open>\<^verbatim>\<open>dwarf_lineaddr\<close>\<close>
  line_src :: string           \<comment> \<open>\<^verbatim>\<open>dwarf_linesrc\<close>\<close>
  line_no :: "int option"      \<comment> \<open>\<^verbatim>\<open>dwarf_lineno\<close>\<close>

record Dwarf_Die =
  die_lowpc :: "u64 option"    \<comment> \<open>\<^verbatim>\<open>dwarf_lowpc\<close>\<close>
  die_highpc :: "u64 option"   \<comment> \<open>\<^verbatim>\<open>dwarf_highpc\<close>\<close>
  die_srclines :: "Dwarf_Line list option"   \<comment> \<open>\<^verbatim>\<open>dwarf_getsrclines\<close> and \<^verbatim>\<open>dwarf_onesrcline\<close>\<close>

text \<open>
  The compilation units of a \<^verbatim>\<open>Dwarf\<close> handle in the order of \<^verbatim>\<open>dwarf_nextcu\<close>, each with
  the result of \<^verbatim>\<open>dwarf_offdie\<close> for it.
\<close>

type_synonym Dwarf = "Dwarf_Die option list"

text \<open>Constants of \<^verbatim>\<open>elf.h\<close>.\<close>

definition PT_LOAD :: u32 where "PT_LOAD = 1"
definition SHT_SYMTAB :: u32 where "SHT_SYMTAB = 2"
definition SHT_DYNSYM :: u32 where "SHT_DYNSYM = 11"
definition STT_FUNC :: u8 where "STT_FUNC = 2"
definition SHN_UNDEF :: u16 where "SHN_UNDEF = 0"

definition GELF_ST_TYPE :: "u8 \<Rightarrow> u8" where
  "GELF_ST_TYPE val = val AND 0xf"

text \<open>
  The collaborators: the file system, the memory of the process, the operating system's
  temporary files, libelf, libdw, the demangler and the disassembler. Each is a function of
  what the code passes to it.
\<close>

record env =
  ifstream :: "string \<Rightarrow> string option"
     \<comment> \<open>the bytes of the file at a path; \<open>None\<close>: the stream cannot be opened\<close>
  read_memory :: "u64 \<Rightarrow> nat \<Rightarrow> string option"
     \<comment> \<open>\<^verbatim>\<open>amd_dbgapi_read_memory\<close> at a global address for a size; \<open>None\<close>: not a success\<close>
  can_allocate :: "nat \<Rightarrow> bool"
     \<comment> \<open>\<^verbatim>\<open>buffer.resize (size)\<close> does not throw\<close>
  tmpfile_ok :: bool
     \<comment> \<open>\<^verbatim>\<open>::open ("/tmp", O_TMPFILE | O_RDWR, 0666)\<close> returns a descriptor\<close>
  write_count :: "string \<Rightarrow> nat"
     \<comment> \<open>the number of bytes that \<^verbatim>\<open>::write\<close> writes of a buffer\<close>
  elf_begin :: "string \<Rightarrow> Elf option"
  dwarf_begin :: "string \<Rightarrow> Dwarf option"
  cxa_demangle :: "string \<Rightarrow> string option"
  largest_instruction_size :: "nat option"
     \<comment> \<open>\<^verbatim>\<open>amd_dbgapi_architecture_get_info\<close>; \<open>None\<close>: not a success\<close>
  disassemble_instruction :: "u64 \<Rightarrow> u64 option"
     \<comment> \<open>the size that \<^verbatim>\<open>amd_dbgapi_disassemble_instruction\<close> reports at an address\<close>

text \<open>
  The state outside the code object that \<^verbatim>\<open>open\<close> changes: the temporary files created so
  far (file descriptor \<open>n\<close> is entry \<open>n\<close> of the list) and the record of what was done.
\<close>

datatype io_event =
    Open_file string
  | Read_memory u64 nat
  | Create_tmpfile nat
  | Warning string

record os_state =
  tmp_files :: "string list"
  io_log :: "io_event list"

record code_object =
  m_load_address :: u64
  m_mem_size :: u64
  m_uri :: string
  m_fd :: "nat option"
  m_symbol_map :: "(u64, string \<times> u64) std_map option"
  m_line_number_map :: "(u64, string \<times> int) std_map option"
  m_compilation_unit_low_high_pc_map :: "(u64, u64) std_map option"

text \<open>
  Modelled from the spec: \<^verbatim>\<open>is_open\<close> is defined in \<^verbatim>\<open>code_object.h\<close>, which is not among the
  sources. The spec has it as the post-condition of a successful \<^verbatim>\<open>open\<close>, and the code
  object holds ``an optional handle to a materialized local byte-addressable copy'': the
  object is open when it holds the handle.
\<close>

definition is_open :: "code_object \<Rightarrow> bool" where
  "is_open co = (m_fd co \<noteq> None)"

subsection \<open>code\_object\_t::open\<close>

definition log_event :: "io_event \<Rightarrow> os_state \<Rightarrow> os_state" where
  "log_event e os = os\<lparr>io_log := io_log os @ [e]\<rparr>"

text \<open>
  The \<^verbatim>\<open>try\<close> block. It ends in one of two ways: \<^verbatim>\<open>open\<close> returns from inside it
  (\<open>Return\<close>), or control reaches the code after the \<^verbatim>\<open>catch\<close> with a buffer (\<open>Buffer\<close>);
  an exception thrown inside is caught and leaves the buffer as it is then, which is empty.
\<close>

datatype acquired = Return os_state | Buffer string os_state

text \<open>\<^verbatim>\<open>file.read (&buffer[0], size)\<close> into the buffer of \<open>size'\<close> zero bytes, from \<open>offset\<close>.\<close>

definition read_at :: "string \<Rightarrow> nat \<Rightarrow> nat \<Rightarrow> string" where
  "read_at bytes offset size' =
     (let got = take size' (drop offset bytes) in got @ replicate (size' - length got) (CHR 0x00))"

text \<open>
  The value of \<^verbatim>\<open>offset\<close> or \<^verbatim>\<open>size\<close> after its \<^verbatim>\<open>if\<close> statement: 0 when the tag is not in the
  table, else what \<^verbatim>\<open>std::stoul\<close> makes of the value, \<open>None\<close> when that throws.
\<close>

definition param_number :: "parsed_uri \<Rightarrow> string \<Rightarrow> nat option" where
  "param_number u tag = (case map_of (params u) tag of None \<Rightarrow> Some 0 | Some s \<Rightarrow> stoul s)"

definition acquire :: "env \<Rightarrow> string \<Rightarrow> parsed_uri \<Rightarrow> os_state \<Rightarrow> acquired" where
  "acquire e uri u os =
     (case param_number u ''offset'' of
        None \<Rightarrow> Buffer [] os
      | Some offset \<Rightarrow>
     (case param_number u ''size'' of
        None \<Rightarrow> Buffer [] os
      | Some size' \<Rightarrow>
          if map_of (params u) ''size'' \<noteq> None \<and> size' = 0 then Return os
          else if protocol u = ''file'' then
            let os = log_event (Open_file (decoded_path u)) os in
            (case ifstream e (decoded_path u) of
               None \<Rightarrow> Return (log_event (Warning ''could not open'') os)
             | Some file \<Rightarrow>
                 if size' = 0 \<and> length file < offset
                 then Return (log_event (Warning ''invalid uri (file size < offset)'') os)
                 else
                   let size' = (if size' = 0 then length file - offset else size')
                   in if can_allocate e size' then Buffer (read_at file offset size') os
                      else Buffer [] os)
          else if protocol u = ''memory'' then
            if offset = 0 \<or> size' = 0
            then Return (log_event (Warning ''invalid uri (offset and size must be != 0'') os)
            else if \<not> can_allocate e size' then Buffer [] os
            else
              let os = log_event (Read_memory (of_nat offset) size') os in
              (case read_memory e (of_nat offset) size' of
                 None \<Rightarrow> Return (log_event (Warning ''could not read memory'') os)
               | Some bytes \<Rightarrow> Buffer (read_at bytes 0 size') os)
          else Return (log_event (Warning ''protocol not supported'') os)))"

text \<open>
  The loop over the program headers. It stops at the first header that \<^verbatim>\<open>gelf_getphdr\<close> does
  not deliver; the size of the earlier \<^verbatim>\<open>PT_LOAD\<close> headers has then been taken already.
  The result is \<^verbatim>\<open>m_mem_size\<close> and whether the loop came to its end.
\<close>

fun phdr_loop :: "GElf_Phdr option list \<Rightarrow> u64 \<Rightarrow> u64 \<times> bool" where
  "phdr_loop [] mem_size = (mem_size, True)"
| "phdr_loop (None # phdrs) mem_size = (mem_size, False)"
| "phdr_loop (Some phdr # phdrs) mem_size =
     phdr_loop phdrs
       (if p_type phdr = PT_LOAD then max mem_size (p_vaddr phdr + p_memsz phdr) else mem_size)"

text \<open>The code after the \<^verbatim>\<open>catch\<close>: the temporary file and the size in memory.\<close>

definition materialize :: "env \<Rightarrow> string \<Rightarrow> code_object \<Rightarrow> os_state \<Rightarrow> code_object \<times> os_state" where
  "materialize e buffer co os =
     (if \<not> tmpfile_ok e
      then (co, log_event (Warning ''could not create a temporary file for code object'') os)
      else
        let fd = length (tmp_files os);
            written = take (write_count e buffer) buffer;
            os = log_event (Create_tmpfile fd) (os\<lparr>tmp_files := tmp_files os @ [written]\<rparr>)
        in if write_count e buffer \<noteq> length buffer
           then (co, log_event (Warning ''could not write to the temporary file'') os)
           else
             (case elf_begin e written of
                None \<Rightarrow> (co, log_event (Warning ''elf_begin failed'') os)
              | Some elf \<Rightarrow>
                  (case elf_phdrs elf of
                     None \<Rightarrow> (co, log_event (Warning ''elf_getphdrnum failed'') os)
                   | Some phdrs \<Rightarrow>
                       let (mem_size, done) = phdr_loop phdrs (m_mem_size co);
                           co = co\<lparr>m_mem_size := mem_size\<rparr>
                       in if \<not> done then (co, log_event (Warning ''gelf_getphdr failed'') os)
                          else (co\<lparr>m_fd := Some fd\<rparr>, os))))"

text \<open>
  \<^verbatim>\<open>code_object_t::open\<close>: the code object and the outside state after the call, or the
  exception that leaves it.
\<close>

definition code_object_open :: "env \<Rightarrow> code_object \<Rightarrow> os_state \<Rightarrow> error + code_object \<times> os_state" where
  "code_object_open e co os =
     (case parse_uri (m_uri co) of
        Inl err \<Rightarrow> Inl err
      | Inr u \<Rightarrow>
          (case acquire e (m_uri co) u os of
             Return os' \<Rightarrow> Inr (co, os')
           | Buffer buffer os' \<Rightarrow> Inr (materialize e buffer co os')))"

subsection \<open>code\_object\_t::load\_symbol\_map and code\_object\_t::find\_symbol\<close>

type_synonym symbol_map = "(u64, string \<times> u64) std_map"

text \<open>What libelf and libdw read from the temporary file of a descriptor.\<close>

definition fd_contents :: "os_state \<Rightarrow> nat \<Rightarrow> string option" where
  "fd_contents os fd = (if fd < length (tmp_files os) then Some (tmp_files os ! fd) else None)"

text \<open>
  The body of the loop over the symbols of a section: the symbol is skipped unless it is a
  function and defined; otherwise it is emplaced at its load address, and where the emplace
  finds the address taken, the entry there is replaced if the size of the symbol is larger
  than the size of the entry.
\<close>

definition add_symbol :: "u64 \<Rightarrow> GElf_Sym \<Rightarrow> symbol_map \<Rightarrow> symbol_map" where
  "add_symbol load_address sym' m =
     (if GELF_ST_TYPE (st_info sym') \<noteq> STT_FUNC \<or> st_shndx sym' = SHN_UNDEF then m
      else
        let symbol_name = st_name sym';
            key = load_address + st_value sym';
            success = (std_map_find m key = None);
            m = std_map_insert key (symbol_name, st_size sym') m
        in case std_map_find m key of
             None \<Rightarrow> m
           | Some it_second \<Rightarrow>
               if \<not> success \<and> st_size sym' > snd it_second
               then std_map_assign key (symbol_name, st_size sym') m
               else m)"

text \<open>The body of the loop over the sections.\<close>

definition add_section :: "u64 \<Rightarrow> Elf_Scn \<Rightarrow> symbol_map \<Rightarrow> symbol_map" where
  "add_section load_address scn m =
     (if sh_type scn \<noteq> SHT_SYMTAB \<and> sh_type scn \<noteq> SHT_DYNSYM then m
      else case scn_data scn of
             None \<Rightarrow> m
           | Some syms \<Rightarrow> fold (add_symbol load_address) syms m)"

definition load_symbol_map :: "env \<Rightarrow> os_state \<Rightarrow> code_object \<Rightarrow> error + code_object" where
  "load_symbol_map e os co =
     (case m_fd co of
        None \<Rightarrow> Inl Assertion_failed
      | Some fd \<Rightarrow>
          if m_symbol_map co \<noteq> None then Inr co
          else
            (case Option.bind (fd_contents os fd) (elf_begin e) of
               None \<Rightarrow> Inr co
             | Some elf \<Rightarrow>
                 Inr (co\<lparr>m_symbol_map :=
                        Some (fold (add_section (m_load_address co)) (elf_sections elf) [])\<rparr>)))"

text \<open>
  The symbols that the scan records: the function-typed, defined symbols of the sections of
  type \<^verbatim>\<open>SHT_SYMTAB\<close> or \<^verbatim>\<open>SHT_DYNSYM\<close> that have data, in the order of the scan.
\<close>

definition is_function_symbol :: "GElf_Sym \<Rightarrow> bool" where
  "is_function_symbol s = (GELF_ST_TYPE (st_info s) = STT_FUNC \<and> st_shndx s \<noteq> SHN_UNDEF)"

definition section_symbols :: "Elf_Scn \<Rightarrow> GElf_Sym list" where
  "section_symbols scn =
     (if sh_type scn = SHT_SYMTAB \<or> sh_type scn = SHT_DYNSYM
      then (case scn_data scn of None \<Rightarrow> [] | Some syms \<Rightarrow> filter is_function_symbol syms)
      else [])"

definition function_symbols :: "Elf \<Rightarrow> GElf_Sym list" where
  "function_symbols elf = concat (map section_symbols (elf_sections elf))"

record symbol_info_t =
  m_name :: string
  m_value :: u64
  m_size :: u64

text \<open>
  \<^verbatim>\<open>code_object_t::find_symbol\<close>. After \<^verbatim>\<open>load_symbol_map\<close> the code applies \<^verbatim>\<open>operator->\<close> to
  \<^verbatim>\<open>m_symbol_map\<close> without asking whether it holds a map.
\<close>

definition find_symbol ::
  "env \<Rightarrow> os_state \<Rightarrow> code_object \<Rightarrow> u64 \<Rightarrow> error + symbol_info_t option \<times> code_object" where
  "find_symbol e os co address =
     (case load_symbol_map e os co of
        Inl err \<Rightarrow> Inl err
      | Inr co \<Rightarrow>
          (case m_symbol_map co of
             None \<Rightarrow> Inl Empty_optional
           | Some m \<Rightarrow>
               let it = std_map_upper_bound address m in
               if it \<noteq> 0 then
                 let (symbol_value, symbol) = m ! (it - 1) in
                 if address < symbol_value + snd symbol then
                   let symbol_name = fst symbol;
                       symbol_name = (case cxa_demangle e symbol_name of
                                        Some demangled_name \<Rightarrow> demangled_name
                                      | None \<Rightarrow> symbol_name)
                   in Inr (Some \<lparr>m_name = symbol_name, m_value = symbol_value,
                                  m_size = snd symbol\<rparr>, co)
                 else Inr (None, co)
               else Inr (None, co)))"

subsection \<open>code\_object\_t::load\_debug\_info\<close>

type_synonym line_number_map = "(u64, string \<times> int) std_map"
type_synonym low_high_pc_map = "(u64, u64) std_map"

text \<open>The body of the loop over the lines of a compilation unit.\<close>

definition add_line :: "u64 \<Rightarrow> Dwarf_Line \<Rightarrow> line_number_map \<Rightarrow> line_number_map" where
  "add_line load_address line m =
     (let addr = (case line_addr line of None \<Rightarrow> 0 | Some a \<Rightarrow> a);
          file = line_src line;
          line_number = (case line_no line of None \<Rightarrow> 0 | Some n \<Rightarrow> n)
      in if addr \<noteq> 0 \<and> line_number \<noteq> 0
         then std_map_insert (load_address + addr) (file, line_number) m
         else m)"

text \<open>
  The loop \<^verbatim>\<open>while (!dwarf_nextcu (...))\<close>. The offset of the current unit is its number \<open>i\<close>.
  The two \<^verbatim>\<open>continue\<close> statements go back to the loop condition without the assignment
  \<^verbatim>\<open>cu_offset = next_offset\<close> at the end of the body, so the loop takes the same unit again;
  the function is partial, and \<open>None\<close> is the call that does not return.
\<close>

partial_function (option) load_cus ::
  "u64 \<Rightarrow> Dwarf \<Rightarrow> nat \<Rightarrow> line_number_map \<times> low_high_pc_map
     \<Rightarrow> (line_number_map \<times> low_high_pc_map) option" where
  "load_cus load_address dbg i maps =
     (if i \<ge> length dbg then Some maps
      else
        (case dbg ! i of
           None \<Rightarrow> load_cus load_address dbg i maps
         | Some die \<Rightarrow>
             let cus = (case (die_lowpc die, die_highpc die) of
                          (Some lowpc, Some highpc) \<Rightarrow>
                            std_map_insert (load_address + lowpc) (load_address + highpc) (snd maps)
                        | _ \<Rightarrow> snd maps)
             in (case die_srclines die of
                   None \<Rightarrow> load_cus load_address dbg i (fst maps, cus)
                 | Some lines \<Rightarrow>
                     load_cus load_address dbg (i + 1)
                       (fold (add_line load_address) lines (fst maps), cus))))"

declare load_cus.simps [code]

definition load_debug_info :: "env \<Rightarrow> os_state \<Rightarrow> code_object \<Rightarrow> (error + code_object) option" where
  "load_debug_info e os co =
     (case m_fd co of
        None \<Rightarrow> Some (Inl Assertion_failed)
      | Some fd \<Rightarrow>
          if m_line_number_map co \<noteq> None \<and> m_compilation_unit_low_high_pc_map co \<noteq> None
          then Some (Inr co)
          else
            (case Option.bind (fd_contents os fd) (dwarf_begin e) of
               None \<Rightarrow> Some (Inr co)
             | Some dbg \<Rightarrow>
                 (case load_cus (m_load_address co) dbg 0 ([], []) of
                    None \<Rightarrow> None
                  | Some (lines, cus) \<Rightarrow>
                      Some (Inr (co\<lparr>m_line_number_map := Some lines,
                                     m_compilation_unit_low_high_pc_map := Some cus\<rparr>)))))"

subsection \<open>code\_object\_t::disassemble\<close>

definition context_byte_size :: u64 where
  "context_byte_size = 32"

text \<open>
  The \<^verbatim>\<open>do\<close> loop that walks back in the line number map, entered with \<open>it\<close> not at the
  beginning; the result is the iterator at which it stops.
\<close>

fun walk_back :: "line_number_map \<Rightarrow> u64 \<Rightarrow> nat \<Rightarrow> nat" where
  "walk_back m pc 0 = 0"
| "walk_back m pc (Suc it) =
     (if pc - fst (m ! it) \<ge> context_byte_size then it
      else if it \<noteq> 0 then walk_back m pc it
      else it)"

text \<open>
  The window: \<^verbatim>\<open>start_pc\<close> and \<^verbatim>\<open>end_pc\<close> before the loop over the instructions. Both maps
  are reached through \<^verbatim>\<open>operator->\<close> without asking whether they hold a value.
\<close>

definition disassemble_window :: "code_object \<Rightarrow> u64 \<Rightarrow> error + u64 \<times> u64" where
  "disassemble_window co pc =
     (case m_line_number_map co of
        None \<Rightarrow> Inl Empty_optional
      | Some lines \<Rightarrow>
          let it = std_map_upper_bound pc lines;
              start_pc = (if it \<noteq> 0 then fst (lines ! walk_back lines pc it) else pc);
              end_pc = pc + context_byte_size
          in case m_compilation_unit_low_high_pc_map co of
               None \<Rightarrow> Inl Empty_optional
             | Some cus \<Rightarrow>
                 let it = std_map_upper_bound pc cus in
                 if it \<noteq> 0 then
                   let (low_pc, high_pc) = cus ! (it - 1) in
                   if pc < high_pc then Inr (max start_pc low_pc, min end_pc high_pc)
                   else Inr (start_pc, end_pc)
                 else Inr (start_pc, end_pc))"

text \<open>
  The loop over the instructions, as far as the addresses go. Each turn either reports that
  the memory at the address cannot be read and leaves the loop, or ends the process through
  \<^verbatim>\<open>agent_error\<close> when the instruction cannot be disassembled, or prints the instruction at
  the address and advances by its size. The source lines that are printed in between do
  not change the address. The loop need not end; \<open>fuel\<close> bounds the number of turns, and the
  result is what has been written by then, one item for each address that a turn has
  looked at.
\<close>

datatype listing = Instruction u64 | Cannot_access_memory u64 | Disassemble_failed u64


fun instruction_loop :: "env \<Rightarrow> nat \<Rightarrow> u64 \<Rightarrow> u64 \<Rightarrow> nat \<Rightarrow> listing list" where
  "instruction_loop e buffer_size addr end_pc 0 = []"
| "instruction_loop e buffer_size addr end_pc (Suc fuel) =
     (if \<not> addr < end_pc then []
      else
        (case read_memory e addr buffer_size of
           None \<Rightarrow> [Cannot_access_memory addr]
         | Some buffer \<Rightarrow>
             (case disassemble_instruction e addr of
                None \<Rightarrow> [Disassemble_failed addr]
              | Some size' \<Rightarrow>
                  Instruction addr # instruction_loop e buffer_size (addr + size') end_pc fuel)))"

text \<open>
  \<^verbatim>\<open>code_object_t::disassemble\<close>: the listing after at most \<open>fuel\<close> turns of the loop over the
  instructions, or the failure before the loop; \<open>None\<close> when \<^verbatim>\<open>load_debug_info\<close> does not
  return.
\<close>

definition disassemble ::
  "env \<Rightarrow> os_state \<Rightarrow> code_object \<Rightarrow> u64 \<Rightarrow> nat \<Rightarrow> (error + listing list \<times> code_object) option" where
  "disassemble e os co pc fuel =
     (case largest_instruction_size e of
        None \<Rightarrow> Some (Inl Fatal_error)
      | Some buffer_size \<Rightarrow>
          (case load_debug_info e os co of
             None \<Rightarrow> None
           | Some (Inl err) \<Rightarrow> Some (Inl err)
           | Some (Inr co) \<Rightarrow>
               (case disassemble_window co pc of
                  Inl err \<Rightarrow> Some (Inl err)
                | Inr (start_pc, end_pc) \<Rightarrow>
                    (case find_symbol e os co pc of
                       Inl err \<Rightarrow> Some (Inl err)
                     | Inr (symbol, co) \<Rightarrow>
                         Some (Inr (instruction_loop e buffer_size start_pc end_pc fuel, co))))))"

subsection \<open>A sample code object\<close>

text \<open>
  A sample environment for concrete evaluations. The file \<^verbatim>\<open>/tmp/a.co\<close> holds ten bytes;
  libelf reads from a file that begins with \<^verbatim>\<open>0123\<close> two loadable segments and a symbol table with the
  function \<^verbatim>\<open>f\<close> of size \<^verbatim>\<open>0x10\<close> at \<^verbatim>\<open>0x100\<close>, three functions at \<^verbatim>\<open>0x200\<close> of the sizes
  4, 8 and 8, an undefined function and an object; libdw reads from the ten bytes of the file
  three compilation units, \<open>[0x100, 0x160)\<close>, inside it \<open>[0x110, 0x120)\<close>, and one at the
  top of the address space, and finds no debug information in any other file.
\<close>

definition sample_elf :: Elf where
  "sample_elf =
     \<lparr>elf_phdrs = Some [Some \<lparr>p_type = 1, p_vaddr = 0, p_memsz = 0x1000\<rparr>,
                         Some \<lparr>p_type = 6, p_vaddr = 0x40, p_memsz = 0x2000\<rparr>,
                         Some \<lparr>p_type = 1, p_vaddr = 0x1000, p_memsz = 0x800\<rparr>],
      elf_sections =
        [\<lparr>sh_type = 1, scn_data = None\<rparr>,
         \<lparr>sh_type = 2, scn_data = Some
            [\<lparr>st_name = ''f'', st_info = 0x12, st_shndx = 7, st_value = 0x100, st_size = 0x10\<rparr>,
             \<lparr>st_name = ''g4'', st_info = 0x12, st_shndx = 7, st_value = 0x200, st_size = 4\<rparr>,
             \<lparr>st_name = ''g8'', st_info = 0x12, st_shndx = 7, st_value = 0x200, st_size = 8\<rparr>,
             \<lparr>st_name = ''u'', st_info = 0x12, st_shndx = 0, st_value = 0x300, st_size = 8\<rparr>,
             \<lparr>st_name = ''o'', st_info = 0x11, st_shndx = 7, st_value = 0x400, st_size = 8\<rparr>,
             \<lparr>st_name = ''h8'', st_info = 0x12, st_shndx = 7, st_value = 0x200, st_size = 8\<rparr>]\<rparr>]\<rparr>"

definition sample_dwarf :: Dwarf where
  "sample_dwarf =
     [Some \<lparr>die_lowpc = Some 0x100, die_highpc = Some 0x160,
            die_srclines = Some
              [\<lparr>line_addr = Some 0x100, line_src = ''a.cpp'', line_no = Some 3\<rparr>,
               \<lparr>line_addr = Some 0x108, line_src = ''a.cpp'', line_no = Some 4\<rparr>,
               \<lparr>line_addr = Some 0, line_src = ''a.cpp'', line_no = Some 5\<rparr>,
               \<lparr>line_addr = Some 0x10c, line_src = ''a.cpp'', line_no = None\<rparr>]\<rparr>,
      Some \<lparr>die_lowpc = Some 0x110, die_highpc = Some 0x120,
            die_srclines = Some
              [\<lparr>line_addr = Some 0x110, line_src = ''b.cpp'', line_no = Some 7\<rparr>]\<rparr>,
      Some \<lparr>die_lowpc = Some 0xFFFFFFFFFFFFFFC0, die_highpc = Some 0xFFFFFFFFFFFFFFFF,
            die_srclines = Some []\<rparr>]"

definition sample_env :: env where
  "sample_env =
     \<lparr>ifstream = (\<lambda>path. if path = ''/tmp/a.co'' then Some ''0123456789'' else None),
      read_memory = (\<lambda>addr n. Some (replicate n (CHR 0x00))),
      can_allocate = (\<lambda>n. True),
      tmpfile_ok = True,
      write_count = length,
      elf_begin = (\<lambda>bytes. if take 4 bytes = ''0123'' then Some sample_elf else None),
      dwarf_begin = (\<lambda>bytes. if bytes = ''0123456789'' then Some sample_dwarf else None),
      cxa_demangle = (\<lambda>name. None),
      largest_instruction_size = Some 8,
      disassemble_instruction = (\<lambda>addr. Some 8)\<rparr>"

definition sample_os :: os_state where
  "sample_os = \<lparr>tmp_files = [], io_log = []\<rparr>"

definition sample_code_object :: "string \<Rightarrow> code_object" where
  "sample_code_object uri =
     \<lparr>m_load_address = 0, m_mem_size = 0, m_uri = uri, m_fd = None,
      m_symbol_map = None, m_line_number_map = None,
      m_compilation_unit_low_high_pc_map = None\<rparr>"

text \<open>The sample code object after \<^verbatim>\<open>open\<close> has read \<^verbatim>\<open>file:///tmp/a.co\<close>, and the state then.\<close>

definition sample_open_os :: os_state where
  "sample_open_os =
     \<lparr>tmp_files = [''0123456789''], io_log = [Open_file ''/tmp/a.co'', Create_tmpfile 0]\<rparr>"

definition sample_open_code_object :: code_object where
  "sample_open_code_object =
     (sample_code_object ''file:///tmp/a.co'')\<lparr>m_mem_size := 0x1800, m_fd := Some 0\<rparr>"

text \<open>The sample code object after \<^verbatim>\<open>load_debug_info\<close> and \<^verbatim>\<open>load_symbol_map\<close>.\<close>

definition sample_loaded_code_object :: code_object where
  "sample_loaded_code_object =
     sample_open_code_object
       \<lparr>m_symbol_map := Some [(0x100, ''f'', 0x10), (0x200, ''g8'', 8)],
        m_line_number_map := Some [(0x100, ''a.cpp'', 3), (0x108, ''a.cpp'', 4), (0x110, ''b.cpp'', 7)],
        m_compilation_unit_low_high_pc_map :=
          Some [(0x100, 0x160), (0x110, 0x120), (0xFFFFFFFFFFFFFFC0, 0xFFFFFFFFFFFFFFFF)]\<rparr>"

section \<open>The scan as a fold over the fault sites\<close>

lemma scan_waves_eq:
  "scan_waves xnack qi wi ws st m =
     (map (advance_wave xnack) ws,
      (if \<exists>w\<in>set ws. xnack (regs_trapsts w) then QUEUE_STATUS_FAILURE else st),
      fold (\<lambda>(k, p). update_faulty_waves k p) (faulty_sites xnack (queue_waves qi wi ws)) m)"
  by (induction ws arbitrary: wi st m)
     (auto simp: advance_wave_def queue_waves_def faulty_sites_def Let_def)

lemma scan_queues_eq:
  "scan_queues xnack qi qs m =
     (map (\<lambda>q. q\<lparr>queueStatus := (if \<exists>w\<in>set (pWaveList q). xnack (regs_trapsts w)
                                   then QUEUE_STATUS_FAILURE else queueStatus q),
                  pWaveList := map (advance_wave xnack) (pWaveList q)\<rparr>) qs,
      fold (\<lambda>(k, p). update_faulty_waves k p) (faulty_sites xnack (traversal qi qs)) m)"
  by (induction qs arbitrary: qi m)
     (simp_all add: traversal_def scan_waves_eq faulty_sites_def Let_def)

section \<open>Properties of the std::map model\<close>

lemma std_map_insert_sub: "set (std_map_insert k v m) \<subseteq> insert (k, v) (set m)"
  by (induction m) (auto split: if_splits)

lemma std_map_insert_sup: "set m \<subseteq> set (std_map_insert k v m)"
  by (induction m) auto

lemma std_map_insert_key: "\<exists>v'. (k, v') \<in> set (std_map_insert k v m)"
  by (induction m) auto

lemma std_map_insert_keys:
  "set (map fst (std_map_insert k v m)) = insert k (set (map fst m))"
  using std_map_insert_sub [of k v m] std_map_insert_sup [of m k v] std_map_insert_key [of k v m]
  by (auto simp: image_iff) force+

lemma std_map_ok_insert: "std_map_ok m \<Longrightarrow> std_map_ok (std_map_insert k v m)"
  unfolding std_map_ok_def
proof (induction m)
  case Nil
  then show ?case by simp
next
  case (Cons e m)
  obtain k' v' where e: "e = (k', v')" by (cases e)
  from Cons show ?case
    using std_map_insert_keys [of k v m] by (auto simp: e)
qed

lemma std_map_ok_find_None:
  "std_map_ok ((k', v') # m) \<Longrightarrow> k < k' \<Longrightarrow> std_map_find m k = None"
  unfolding std_map_ok_def std_map_find_def
  by (force simp: map_of_eq_None_iff)

lemma std_map_find_insert:
  "std_map_ok m \<Longrightarrow>
   std_map_find (std_map_insert k v m) k' =
     (if k' = k \<and> std_map_find m k = None then Some v else std_map_find m k')"
proof (induction m)
  case Nil
  then show ?case by (simp add: std_map_find_def)
next
  case (Cons e m)
  obtain a b where e: "e = (a, b)" by (cases e)
  have ok: "std_map_ok m" using Cons.prems by (simp add: std_map_ok_def)
  have IH: "std_map_find (std_map_insert k v m) k' =
     (if k' = k \<and> std_map_find m k = None then Some v else std_map_find m k')"
    by (rule Cons.IH [OF ok])
  show ?case
  proof (cases "k < a")
    case True
    then have "std_map_find m k = None"
      using Cons.prems std_map_ok_find_None [of a b m k] by (simp add: e)
    with True show ?thesis by (auto simp: e std_map_find_def)
  next
    case False
    with IH show ?thesis by (auto simp: e std_map_find_def)
  qed
qed

lemma std_map_assign_keys: "map fst (std_map_assign k v m) = map fst m"
  by (induction m) auto

lemma std_map_ok_assign: "std_map_ok (std_map_assign k v m) = std_map_ok m"
  by (simp add: std_map_ok_def std_map_assign_keys)

lemma std_map_find_assign:
  "std_map_find (std_map_assign k v m) k' =
     (if k' = k \<and> std_map_find m k \<noteq> None then Some v else std_map_find m k')"
  by (induction m) (auto simp: std_map_find_def)

lemma std_map_ok_distinct: "std_map_ok m \<Longrightarrow> distinct (map fst m)"
  unfolding std_map_ok_def by (simp add: strict_sorted_iff)

lemma std_map_find_iff:
  "std_map_ok m \<Longrightarrow> (std_map_find m k = Some v) = ((k, v) \<in> set m)"
  unfolding std_map_find_def by (simp add: std_map_ok_distinct)

lemma std_map_ok_update: "std_map_ok m \<Longrightarrow> std_map_ok (update_faulty_waves k p m)"
  by (simp add: update_faulty_waves_def std_map_ok_insert std_map_ok_assign split: option.split)

lemma std_map_find_update:
  "std_map_ok m \<Longrightarrow>
   std_map_find (update_faulty_waves k p m) k' =
     (if k' = k
      then Some (case std_map_find m k of None \<Rightarrow> (1, p) | Some (n, r) \<Rightarrow> (n + 1, r))
      else std_map_find m k')"
  by (simp add: update_faulty_waves_def std_map_find_insert std_map_find_assign
           split: option.split)

lemma fold_update_ok:
  "std_map_ok m \<Longrightarrow> std_map_ok (fold (\<lambda>(k, p). update_faulty_waves k p) xs m)"
  by (induction xs arbitrary: m) (auto simp: std_map_ok_update)

lemma fold_update_find:
  "std_map_ok m \<Longrightarrow>
   std_map_find (fold (\<lambda>(k, p). update_faulty_waves k p) xs m) k =
     (case std_map_find m k of
        Some (n, r) \<Rightarrow> Some (n + of_nat (site_count k xs), r)
      | None \<Rightarrow> (case map_of xs k of None \<Rightarrow> None
                 | Some p \<Rightarrow> Some (of_nat (site_count k xs), p)))"
proof (induction xs arbitrary: m)
  case Nil
  then show ?case by (simp add: site_count_def split: option.split)
next
  case (Cons x xs)
  obtain k' p' where x: "x = (k', p')" by (cases x)
  have ok: "std_map_ok (update_faulty_waves k' p' m)"
    using Cons.prems by (rule std_map_ok_update)
  show ?case
    using Cons.IH [OF ok] std_map_find_update [OF Cons.prems, of k' p' k]
    by (auto simp: x site_count_def split: option.split)
qed


lemma FindFaultyWaves_eq:
  "agentStatus pAgent \<noteq> AGENT_STATUS_UNSUPPORTED \<Longrightarrow>
   FindFaultyWaves xnack pAgent =
     (pAgent\<lparr>pQueueList :=
        map (\<lambda>q. q\<lparr>queueStatus := (if \<exists>w\<in>set (pWaveList q). xnack (regs_trapsts w)
                                     then QUEUE_STATUS_FAILURE else queueStatus q),
                    pWaveList := map (advance_wave xnack) (pWaveList q)\<rparr>) (pQueueList pAgent)\<rparr>,
      fold (\<lambda>(k, p). update_faulty_waves k p)
        (faulty_sites xnack (traversal 0 (pQueueList pAgent))) [])"
  by (simp add: FindFaultyWaves_def scan_queues_eq)

lemma map_of_find: "(map_of xs k = Some p) = (find (\<lambda>e. fst e = k) xs = Some (k, p))"
  by (induction xs) auto

lemma sum_indicator:
  "distinct ks \<Longrightarrow> sum_list (map (\<lambda>k. if a = k then 1 else 0) ks) = (if a \<in> set ks then 1 else (0::nat))"
  by (induction ks) auto

lemma sum_site_count:
  "distinct ks \<Longrightarrow> fst ` set xs \<subseteq> set ks \<Longrightarrow>
   sum_list (map (\<lambda>k. site_count k xs) ks) = length xs"
proof (induction xs)
  case Nil
  then show ?case by (simp add: site_count_def)
next
  case (Cons x xs)
  have "sum_list (map (\<lambda>k. site_count k (x # xs)) ks)
      = sum_list (map (\<lambda>k. (if fst x = k then 1 else 0) + site_count k xs) ks)"
    by (rule arg_cong [where f = sum_list]) (simp add: site_count_def)
  also have "\<dots> = sum_list (map (\<lambda>k. if fst x = k then 1 else 0) ks)
                 + sum_list (map (\<lambda>k. site_count k xs) ks)"
    by (simp add: sum_list_addf)
  also have "\<dots> = 1 + length xs"
    using Cons by (simp add: sum_indicator)
  finally show ?case by simp
qed

lemma in_queue_waves:
  "(((q, wi), w) \<in> set (queue_waves qi 0 ws)) = (q = qi \<and> wi < length ws \<and> w = ws ! wi)"
  by (auto simp: queue_waves_def in_set_enumerate_eq)

lemma in_traversal:
  "(((qi, wi), w) \<in> set (traversal 0 qs)) =
     (qi < length qs \<and> wi < length (pWaveList (qs ! qi)) \<and> w = pWaveList (qs ! qi) ! wi)"
proof -
  have "(((qi, wi), w) \<in> set (traversal 0 qs)) =
        (\<exists>i q. (i, q) \<in> set (enumerate 0 qs) \<and> ((qi, wi), w) \<in> set (queue_waves i 0 (pWaveList q)))"
    by (auto simp: traversal_def)
  also have "\<dots> = (\<exists>i. i < length qs \<and> ((qi, wi), w) \<in> set (queue_waves i 0 (pWaveList (qs ! i))))"
    by (simp add: in_set_enumerate_eq)
  also have "\<dots> = (qi < length qs \<and> wi < length (pWaveList (qs ! qi)) \<and> w = pWaveList (qs ! qi) ! wi)"
    by (auto simp: in_queue_waves)
  finally show ?thesis .
qed

lemma in_faulty_sites:
  "((k, p) \<in> set (faulty_sites xnack t)) =
     (\<exists>w. (p, w) \<in> set t \<and> xnack (regs_trapsts w) \<and> k = regs_pc w + 8)"
  by (auto simp: faulty_sites_def)

lemma upper_bound_le_length: "std_map_upper_bound a m \<le> length m"
  by (simp add: std_map_upper_bound_def length_takeWhile_le)

lemma upper_bound_prefix:
  "i < std_map_upper_bound a m \<Longrightarrow> fst (m ! i) \<le> a"
  unfolding std_map_upper_bound_def
  using nth_length_takeWhile takeWhile_nth
  by (metis (mono_tags, lifting) nth_mem set_takeWhileD)

lemma std_map_nth_less:
  assumes "std_map_ok m" "i < j" "j < length m"
  shows "fst (m ! i) < fst (m ! j)"
proof -
  have "map fst m ! i < map fst m ! j"
    using assms unfolding std_map_ok_def by (intro sorted_wrt_nth_less) simp_all
  then show ?thesis using assms by simp
qed

lemma upper_bound_suffix:
  assumes "std_map_ok m" "std_map_upper_bound a m \<le> i" "i < length m"
  shows "a < fst (m ! i)"
proof -
  let ?n = "std_map_upper_bound a m"
  have n: "?n < length m" using assms by simp
  have "\<not> fst (m ! ?n) \<le> a"
    using n unfolding std_map_upper_bound_def by (rule nth_length_takeWhile)
  moreover have "fst (m ! ?n) \<le> fst (m ! i)"
  proof (cases "?n = i")
    case True then show ?thesis by simp
  next
    case False
    then have "?n < i" using assms(2) by simp
    then have "fst (m ! ?n) < fst (m ! i)"
      using assms(1,3) by (intro std_map_nth_less)
    then show ?thesis by simp
  qed
  ultimately show ?thesis by simp
qed

lemma upper_bound_zero:
  assumes "std_map_ok m"
  shows "(std_map_upper_bound a m = 0) = (\<forall>e\<in>set m. a < fst e)"
proof
  assume z: "std_map_upper_bound a m = 0"
  show "\<forall>e\<in>set m. a < fst e"
  proof
    fix e assume "e \<in> set m"
    then obtain i where "i < length m" "m ! i = e" by (auto simp: in_set_conv_nth)
    then show "a < fst e" using upper_bound_suffix [OF assms, of a i] z by simp
  qed
next
  assume all: "\<forall>e\<in>set m. a < fst e"
  show "std_map_upper_bound a m = 0"
  proof (rule ccontr)
    assume "std_map_upper_bound a m \<noteq> 0"
    then have pos: "0 < std_map_upper_bound a m" by simp
    then have "fst (m ! 0) \<le> a" by (rule upper_bound_prefix)
    moreover have "0 < length m" using pos upper_bound_le_length [of a m] by linarith
    then have "m ! 0 \<in> set m" by simp
    ultimately show False using all by fastforce
  qed
qed

lemma upper_bound_prev:
  assumes "std_map_ok m" "std_map_upper_bound a m \<noteq> 0"
  shows "m ! (std_map_upper_bound a m - 1) \<in> set m"
    and "fst (m ! (std_map_upper_bound a m - 1)) \<le> a"
    and "\<forall>e\<in>set m. fst e \<le> a \<longrightarrow> fst e \<le> fst (m ! (std_map_upper_bound a m - 1))"
proof -
  let ?n = "std_map_upper_bound a m"
  have lt: "?n - 1 < ?n" using assms(2) by simp
  have len: "?n - 1 < length m" using lt upper_bound_le_length [of a m] by simp
  show "m ! (?n - 1) \<in> set m" using len by simp
  show "fst (m ! (?n - 1)) \<le> a" using lt by (rule upper_bound_prefix)
  show "\<forall>e\<in>set m. fst e \<le> a \<longrightarrow> fst e \<le> fst (m ! (?n - 1))"
  proof (intro ballI impI)
    fix e assume e: "e \<in> set m" "fst e \<le> a"
    then obtain i where i: "i < length m" "m ! i = e" by (auto simp: in_set_conv_nth)
    have "i < ?n"
    proof (rule ccontr)
      assume "\<not> i < ?n"
      then have "a < fst (m ! i)" using upper_bound_suffix [OF assms(1), of a i] i by simp
      then show False using e i by simp
    qed
    then have "i \<le> ?n - 1" by simp
    then have "fst (m ! i) \<le> fst (m ! (?n - 1))"
      using std_map_nth_less [OF assms(1), of i "?n - 1"] len
      by (cases "i = ?n - 1") (simp_all add: less_imp_le)
    then show "fst e \<le> fst (m ! (?n - 1))" using i by simp
  qed
qed

section \<open>The map returned by FindFaultyWaves\<close>

lemma faulty_map_entries:
  assumes "agentStatus pAgent \<noteq> AGENT_STATUS_UNSUPPORTED"
    and "FindFaultyWaves xnack pAgent = (pAgent', faultyWaves)"
  shows "std_map_ok faultyWaves"
    and "std_map_find faultyWaves k =
      (case map_of (faulty_sites xnack (traversal 0 (pQueueList pAgent))) k of None \<Rightarrow> None
       | Some p \<Rightarrow> Some (of_nat (site_count k (faulty_sites xnack (traversal 0 (pQueueList pAgent)))), p))"
proof -
  have m: "faultyWaves = fold (\<lambda>(k, p). update_faulty_waves k p)
        (faulty_sites xnack (traversal 0 (pQueueList pAgent))) []"
    using assms by (simp add: FindFaultyWaves_eq)
  have ok0: "std_map_ok ([] :: faulty_map)" by (simp add: std_map_ok_def)
  show "std_map_ok faultyWaves"
    unfolding m by (rule fold_update_ok [OF ok0])
  show "std_map_find faultyWaves k =
      (case map_of (faulty_sites xnack (traversal 0 (pQueueList pAgent))) k of None \<Rightarrow> None
       | Some p \<Rightarrow> Some (of_nat (site_count k (faulty_sites xnack (traversal 0 (pQueueList pAgent)))), p))"
    unfolding m using fold_update_find [OF ok0, of "faulty_sites xnack (traversal 0 (pQueueList pAgent))" k]
    by (simp add: std_map_find_def)
qed

lemma faulty_map_keys:
  assumes "agentStatus pAgent \<noteq> AGENT_STATUS_UNSUPPORTED"
    and "FindFaultyWaves xnack pAgent = (pAgent', faultyWaves)"
  shows "set (map fst faultyWaves) = set (map fst (faulty_sites xnack (traversal 0 (pQueueList pAgent))))"
proof -
  let ?xs = "faulty_sites xnack (traversal 0 (pQueueList pAgent))"
  have "(k \<in> set (map fst faultyWaves)) = (k \<in> set (map fst ?xs))" for k
  proof -
    have "(k \<in> set (map fst faultyWaves)) = (std_map_find faultyWaves k \<noteq> None)"
      by (simp add: std_map_find_def map_of_eq_None_iff)
    also have "\<dots> = (map_of ?xs k \<noteq> None)"
      by (simp add: faulty_map_entries(2) [OF assms] split: option.split)
    also have "\<dots> = (k \<in> set (map fst ?xs))"
      by (simp add: map_of_eq_None_iff)
    finally show ?thesis .
  qed
  then show ?thesis by blast
qed

lemma site_count_le: "site_count k xs \<le> length xs"
  by (simp add: site_count_def)

lemma faulty_map_sum:
  assumes "agentStatus pAgent \<noteq> AGENT_STATUS_UNSUPPORTED"
    and "FindFaultyWaves xnack pAgent = (pAgent', faultyWaves)"
    and "length (faulty_sites xnack (traversal 0 (pQueueList pAgent))) < 2 ^ 64"
  shows "sum_list (map (\<lambda>(k, n, r). unat n) faultyWaves)
       = length (faulty_sites xnack (traversal 0 (pQueueList pAgent)))"
proof -
  let ?xs = "faulty_sites xnack (traversal 0 (pQueueList pAgent))"
  have ok: "std_map_ok faultyWaves" by (rule faulty_map_entries(1) [OF assms(1,2)])
  have each: "(case e of (k, n, r) \<Rightarrow> unat n) = site_count (fst e) ?xs" if "e \<in> set faultyWaves" for e
  proof -
    obtain k n r where e: "e = (k, n, r)" by (cases e)
    have "std_map_find faultyWaves k = Some (n, r)"
      using that ok by (simp add: e std_map_find_iff)
    then have "n = of_nat (site_count k ?xs)"
      by (simp add: faulty_map_entries(2) [OF assms(1,2)] split: option.splits)
    moreover have "site_count k ?xs < 2 ^ 64"
      using site_count_le [of k ?xs] assms(3) by simp
    ultimately show ?thesis
      by (simp add: e unat_of_nat take_bit_nat_eq_self)
  qed
  have "sum_list (map (\<lambda>(k, n, r). unat n) faultyWaves)
      = sum_list (map (\<lambda>e. site_count (fst e) ?xs) faultyWaves)"
    by (rule arg_cong [where f = sum_list]) (simp add: each)
  also have "\<dots> = sum_list (map (\<lambda>k. site_count k ?xs) (map fst faultyWaves))"
    by (simp add: comp_def)
  also have "\<dots> = length ?xs"
    using faulty_map_keys [OF assms(1,2)] ok
    by (intro sum_site_count) (simp_all add: std_map_ok_distinct)
  finally show ?thesis .
qed



lemma faulty_map_aggregation:
  assumes "agentStatus pAgent \<noteq> AGENT_STATUS_UNSUPPORTED"
    and "FindFaultyWaves xnack pAgent = (pAgent', faultyWaves)"
  shows "let sites = faulty_sites xnack (traversal 0 (pQueueList pAgent)) in
     std_map_ok faultyWaves \<and>
     set (map fst faultyWaves) = set (map fst sites) \<and>
     (length sites < 2 ^ 64 \<longrightarrow>
        sum_list (map (\<lambda>(k, n, r). unat n) faultyWaves) = length sites) \<and>
     (\<forall>(k, n, r) \<in> set faultyWaves.
        n = of_nat (site_count k sites) \<and> find (\<lambda>e. fst e = k) sites = Some (k, r)) \<and>
     (\<forall>(k, n, qi, wi) \<in> set faultyWaves.
        qi < length (pQueueList pAgent) \<and> wi < length (pWaveList (pQueueList pAgent ! qi)) \<and>
        xnack (regs_trapsts (pWaveList (pQueueList pAgent ! qi) ! wi)) \<and>
        regs_pc (pWaveList (pQueueList pAgent ! qi) ! wi) + 8 = k \<and>
        regs_pc (pWaveList (pQueueList pAgent' ! qi) ! wi) = k)"
proof -
  let ?xs = "faulty_sites xnack (traversal 0 (pQueueList pAgent))"
  have ok: "std_map_ok faultyWaves" by (rule faulty_map_entries(1) [OF assms])
  have entry: "n = of_nat (site_count k ?xs) \<and> map_of ?xs k = Some r"
    if "(k, n, r) \<in> set faultyWaves" for k n r
  proof -
    have "std_map_find faultyWaves k = Some (n, r)"
      using that ok by (simp add: std_map_find_iff)
    then show ?thesis
      by (simp add: faulty_map_entries(2) [OF assms] split: option.splits)
  qed
  have rep: "n = of_nat (site_count k ?xs) \<and> find (\<lambda>e. fst e = k) ?xs = Some (k, r)"
    if "(k, n, r) \<in> set faultyWaves" for k n r
    using entry [OF that] by (simp add: map_of_find)
  have store: "qi < length (pQueueList pAgent) \<and> wi < length (pWaveList (pQueueList pAgent ! qi)) \<and>
        xnack (regs_trapsts (pWaveList (pQueueList pAgent ! qi) ! wi)) \<and>
        regs_pc (pWaveList (pQueueList pAgent ! qi) ! wi) + 8 = k \<and>
        regs_pc (pWaveList (pQueueList pAgent' ! qi) ! wi) = k"
    if "(k, n, qi, wi) \<in> set faultyWaves" for k n qi wi
  proof -
    have "map_of ?xs k = Some (qi, wi)" using entry [OF that] by simp
    then have "(k, qi, wi) \<in> set ?xs" by (rule map_of_SomeD)
    then obtain w where w: "((qi, wi), w) \<in> set (traversal 0 (pQueueList pAgent))"
      "xnack (regs_trapsts w)" "k = regs_pc w + 8"
      by (auto simp: in_faulty_sites)
    from w(1) have pos: "qi < length (pQueueList pAgent)"
      "wi < length (pWaveList (pQueueList pAgent ! qi))"
      "w = pWaveList (pQueueList pAgent ! qi) ! wi"
      by (simp_all add: in_traversal)
    have "pAgent' = pAgent\<lparr>pQueueList :=
        map (\<lambda>q. q\<lparr>queueStatus := (if \<exists>w\<in>set (pWaveList q). xnack (regs_trapsts w)
                                     then QUEUE_STATUS_FAILURE else queueStatus q),
                    pWaveList := map (advance_wave xnack) (pWaveList q)\<rparr>) (pQueueList pAgent)\<rparr>"
      using assms by (simp add: FindFaultyWaves_eq)
    then have "regs_pc (pWaveList (pQueueList pAgent' ! qi) ! wi) = regs_pc (advance_wave xnack w)"
      using pos by simp
    with w pos show ?thesis by (simp add: advance_wave_def)
  qed
  show ?thesis
    unfolding Let_def
    using ok faulty_map_keys [OF assms] faulty_map_sum [OF assms] rep store
    by (intro conjI impI ballI) (simp_all add: case_prod_beta, auto)
qed


text \<open>
  Claim C1, as the code has it. For an agent whose status is \<^verbatim>\<open>AGENT_STATUS_UNSUPPORTED\<close>,
  \<^verbatim>\<open>FindFaultyWaves\<close> returns at once: the map is empty and the agent is as it was. For every
  other agent, with \<open>sites\<close> the waves whose trap status has the XNACK error flag, in
  traversal order (every queue of the agent, every wave of each queue), each with its
  program counter advanced by 8 (in 64-bit arithmetic): the keys of the returned map are
  strictly increasing, hence unique, and are exactly the advanced program counters of the
  faulty waves; the counts sum to the number of faulty waves (they are 64-bit counters, and
  there are fewer than \<open>2 ^ 64\<close> waves); the count of a key is the number of faulty waves
  with that advanced program counter and its representative is the first faulty wave with
  that advanced program counter in traversal order; and the representative is a wave of
  the store that has the flag set, whose program counter plus 8 is the key and whose
  program counter after the scan is the key.
\<close>

theorem FindFaultyWaves_aggregation:
  assumes "FindFaultyWaves xnack pAgent = (pAgent', faultyWaves)"
  shows "(agentStatus pAgent = AGENT_STATUS_UNSUPPORTED \<longrightarrow>
            pAgent' = pAgent \<and> faultyWaves = []) \<and>
     (agentStatus pAgent \<noteq> AGENT_STATUS_UNSUPPORTED \<longrightarrow>
       (let sites = faulty_sites xnack (traversal 0 (pQueueList pAgent)) in
        std_map_ok faultyWaves \<and>
        set (map fst faultyWaves) = set (map fst sites) \<and>
        (length sites < 2 ^ 64 \<longrightarrow>
           sum_list (map (\<lambda>(k, n, r). unat n) faultyWaves) = length sites) \<and>
        (\<forall>(k, n, r) \<in> set faultyWaves.
           n = of_nat (site_count k sites) \<and> find (\<lambda>e. fst e = k) sites = Some (k, r)) \<and>
        (\<forall>(k, n, qi, wi) \<in> set faultyWaves.
           qi < length (pQueueList pAgent) \<and> wi < length (pWaveList (pQueueList pAgent ! qi)) \<and>
           xnack (regs_trapsts (pWaveList (pQueueList pAgent ! qi) ! wi)) \<and>
           regs_pc (pWaveList (pQueueList pAgent ! qi) ! wi) + 8 = k \<and>
           regs_pc (pWaveList (pQueueList pAgent' ! qi) ! wi) = k)))"
proof (rule conjI; rule impI)
  assume "agentStatus pAgent = AGENT_STATUS_UNSUPPORTED"
  with assms show "pAgent' = pAgent \<and> faultyWaves = []"
    by (auto simp: FindFaultyWaves_def)
next
  assume "agentStatus pAgent \<noteq> AGENT_STATUS_UNSUPPORTED"
  then show "let sites = faulty_sites xnack (traversal 0 (pQueueList pAgent)) in
        std_map_ok faultyWaves \<and>
        set (map fst faultyWaves) = set (map fst sites) \<and>
        (length sites < 2 ^ 64 \<longrightarrow>
           sum_list (map (\<lambda>(k, n, r). unat n) faultyWaves) = length sites) \<and>
        (\<forall>(k, n, r) \<in> set faultyWaves.
           n = of_nat (site_count k sites) \<and> find (\<lambda>e. fst e = k) sites = Some (k, r)) \<and>
        (\<forall>(k, n, qi, wi) \<in> set faultyWaves.
           qi < length (pQueueList pAgent) \<and> wi < length (pWaveList (pQueueList pAgent ! qi)) \<and>
           xnack (regs_trapsts (pWaveList (pQueueList pAgent ! qi) ! wi)) \<and>
           regs_pc (pWaveList (pQueueList pAgent ! qi) ! wi) + 8 = k \<and>
           regs_pc (pWaveList (pQueueList pAgent' ! qi) ! wi) = k)"
    using assms by (rule faulty_map_aggregation)
qed

theorem FindFaultyWaves_aggregation_witness:
  "agentStatus (sample_agent (AGENT_STATUS_OTHER 0)) \<noteq> AGENT_STATUS_UNSUPPORTED \<and>
   snd (FindFaultyWaves xnack_bit28 (sample_agent (AGENT_STATUS_OTHER 0)))
     = [(0x1008, 2, 0, 0), (0x3008, 1, 2, 0)] \<and>
   faulty_sites xnack_bit28 (traversal 0 (pQueueList (sample_agent (AGENT_STATUS_OTHER 0))))
     = [(0x1008, 0, 0), (0x3008, 2, 0), (0x1008, 2, 1)] \<and>
   sum_list (map (\<lambda>(k, n, r). unat n)
       (snd (FindFaultyWaves xnack_bit28 (sample_agent (AGENT_STATUS_OTHER 0))))) = 3 \<and>
   find (\<lambda>e. fst e = 0x1008)
       (faulty_sites xnack_bit28 (traversal 0 (pQueueList (sample_agent (AGENT_STATUS_OTHER 0)))))
     = Some (0x1008, 0, 0) \<and>
   agentStatus (sample_agent AGENT_STATUS_UNSUPPORTED) = AGENT_STATUS_UNSUPPORTED \<and>
   FindFaultyWaves xnack_bit28 (sample_agent AGENT_STATUS_UNSUPPORTED)
     = (sample_agent AGENT_STATUS_UNSUPPORTED, [])"
proof -
  let ?a = "sample_agent (AGENT_STATUS_OTHER 0)"
  let ?u = "sample_agent AGENT_STATUS_UNSUPPORTED"
  let ?m = "[(0x1008, 2, 0, 0), (0x3008, 1, 2, 0)] :: faulty_map"
  let ?s = "[(0x1008, 0, 0), (0x3008, 2, 0), (0x1008, 2, 1)] :: (u64 \<times> wave_ptr) list"
  have h1: "agentStatus ?a \<noteq> AGENT_STATUS_UNSUPPORTED"
    by (simp add: sample_agent_def)
  have m: "snd (FindFaultyWaves xnack_bit28 ?a) = ?m"
    by code_simp
  have s: "faulty_sites xnack_bit28 (traversal 0 (pQueueList ?a)) = ?s"
    by code_simp
  have h2: "FindFaultyWaves xnack_bit28 ?a = (fst (FindFaultyWaves xnack_bit28 ?a), ?m)"
    using m by (simp add: prod_eq_iff)
  have "(length ?s < 2 ^ 64 \<longrightarrow> sum_list (map (\<lambda>(k, n, r). unat n) ?m) = length ?s) \<and>
        (\<forall>(k, n, r) \<in> set ?m. n = of_nat (site_count k ?s) \<and> find (\<lambda>e. fst e = k) ?s = Some (k, r))"
    using FindFaultyWaves_aggregation [OF h2] h1 unfolding Let_def s by blast
  then have a: "sum_list (map (\<lambda>(k, n, r). unat n) ?m) = 3"
    and b: "find (\<lambda>e. fst e = 0x1008) ?s = Some (0x1008, 0, 0)"
    by simp_all
  have g1: "agentStatus ?u = AGENT_STATUS_UNSUPPORTED"
    by (simp add: sample_agent_def)
  have g2: "FindFaultyWaves xnack_bit28 ?u
      = (fst (FindFaultyWaves xnack_bit28 ?u), snd (FindFaultyWaves xnack_bit28 ?u))"
    by simp
  have "fst (FindFaultyWaves xnack_bit28 ?u) = ?u \<and> snd (FindFaultyWaves xnack_bit28 ?u) = []"
    using FindFaultyWaves_aggregation [OF g2] g1 by blast
  then have c: "FindFaultyWaves xnack_bit28 ?u = (?u, [])"
    by (simp add: prod_eq_iff)
  from h1 m s a b g1 c show ?thesis by simp
qed

text \<open>
  The claim as stated, for every store, fails for an agent marked unsupported: the sample
  agent has three faulty waves at two distinct advanced program counters and the returned
  map is empty (and no program counter is advanced).
\<close>

theorem FindFaultyWaves_unsupported_counterexample:
  "FindFaultyWaves xnack_bit28 (sample_agent AGENT_STATUS_UNSUPPORTED)
     = (sample_agent AGENT_STATUS_UNSUPPORTED, []) \<and>
   faulty_sites xnack_bit28 (traversal 0 (pQueueList (sample_agent AGENT_STATUS_UNSUPPORTED)))
     = [(0x1008, 0, 0), (0x3008, 2, 0), (0x1008, 2, 1)]"
  by code_simp

text \<open>
  Claim C8. The scan removes no unit and changes nothing but program counters and queue
  status flags: the agent keeps its node and status, the queue list and every wave list keep
  their length, every queue keeps its other members, and every wave at every position is the
  wave that was there before, with 8 added to the program counter exactly when the agent is
  scanned (its status is not \<^verbatim>\<open>AGENT_STATUS_UNSUPPORTED\<close>) and the wave has the XNACK error flag.
  The status of a queue becomes \<^verbatim>\<open>QUEUE_STATUS_FAILURE\<close> exactly when the agent is scanned and
  the queue has a faulty wave, and is unchanged otherwise.
\<close>

theorem FindFaultyWaves_frame:
  assumes "FindFaultyWaves xnack pAgent = (pAgent', faultyWaves)"
  shows "nodeId pAgent' = nodeId pAgent \<and> agentStatus pAgent' = agentStatus pAgent \<and>
     length (pQueueList pAgent') = length (pQueueList pAgent) \<and>
     (\<forall>qi < length (pQueueList pAgent).
        queue_other (pQueueList pAgent' ! qi) = queue_other (pQueueList pAgent ! qi) \<and>
        length (pWaveList (pQueueList pAgent' ! qi)) = length (pWaveList (pQueueList pAgent ! qi)) \<and>
        queueStatus (pQueueList pAgent' ! qi) =
          (if agentStatus pAgent \<noteq> AGENT_STATUS_UNSUPPORTED \<and>
              (\<exists>w \<in> set (pWaveList (pQueueList pAgent ! qi)). xnack (regs_trapsts w))
           then QUEUE_STATUS_FAILURE else queueStatus (pQueueList pAgent ! qi)) \<and>
        (\<forall>wi < length (pWaveList (pQueueList pAgent ! qi)).
           pWaveList (pQueueList pAgent' ! qi) ! wi =
             (if agentStatus pAgent \<noteq> AGENT_STATUS_UNSUPPORTED \<and>
                 xnack (regs_trapsts (pWaveList (pQueueList pAgent ! qi) ! wi))
              then (pWaveList (pQueueList pAgent ! qi) ! wi)
                     \<lparr>regs_pc := regs_pc (pWaveList (pQueueList pAgent ! qi) ! wi) + 8\<rparr>
              else pWaveList (pQueueList pAgent ! qi) ! wi)))"
proof (cases "agentStatus pAgent = AGENT_STATUS_UNSUPPORTED")
  case True
  then have "pAgent' = pAgent"
    using assms by (simp add: FindFaultyWaves_def)
  with True show ?thesis by simp
next
  case False
  then have "pAgent' = pAgent\<lparr>pQueueList :=
        map (\<lambda>q. q\<lparr>queueStatus := (if \<exists>w\<in>set (pWaveList q). xnack (regs_trapsts w)
                                     then QUEUE_STATUS_FAILURE else queueStatus q),
                    pWaveList := map (advance_wave xnack) (pWaveList q)\<rparr>) (pQueueList pAgent)\<rparr>"
    using assms by (simp add: FindFaultyWaves_eq)
  with False show ?thesis by (simp add: advance_wave_def)
qed

theorem FindFaultyWaves_frame_witness:
  "(0::nat) < length (pQueueList (sample_agent (AGENT_STATUS_OTHER 0))) \<and>
   (0::nat) < length (pWaveList (pQueueList (sample_agent (AGENT_STATUS_OTHER 0)) ! 0)) \<and>
   length (pQueueList (fst (FindFaultyWaves xnack_bit28 (sample_agent (AGENT_STATUS_OTHER 0))))) = 3 \<and>
   queueStatus (pQueueList (fst (FindFaultyWaves xnack_bit28 (sample_agent (AGENT_STATUS_OTHER 0)))) ! 0)
     = QUEUE_STATUS_FAILURE \<and>
   pWaveList (pQueueList (fst (FindFaultyWaves xnack_bit28 (sample_agent (AGENT_STATUS_OTHER 0)))) ! 0) ! 0
     = \<lparr>regs_pc = 0x1008, regs_trapsts = 0x10000000, wave_other = ()\<rparr>"
proof -
  let ?a = "sample_agent (AGENT_STATUS_OTHER 0)"
  have h: "FindFaultyWaves xnack_bit28 ?a
      = (fst (FindFaultyWaves xnack_bit28 ?a), snd (FindFaultyWaves xnack_bit28 ?a))"
    by simp
  have q: "(0::nat) < length (pQueueList ?a)"
    and w: "(0::nat) < length (pWaveList (pQueueList ?a ! 0))"
    by (simp_all add: sample_agent_def)
  have x: "xnack_bit28 (regs_trapsts (pWaveList (pQueueList ?a ! 0) ! 0))"
    by code_simp
  have st: "agentStatus ?a \<noteq> AGENT_STATUS_UNSUPPORTED"
    by (simp add: sample_agent_def)
  note f = FindFaultyWaves_frame [OF h]
  from f have "length (pQueueList (fst (FindFaultyWaves xnack_bit28 ?a))) = length (pQueueList ?a)"
    by blast
  moreover from f q have "queueStatus (pQueueList (fst (FindFaultyWaves xnack_bit28 ?a)) ! 0) =
          (if agentStatus ?a \<noteq> AGENT_STATUS_UNSUPPORTED \<and>
              (\<exists>w \<in> set (pWaveList (pQueueList ?a ! 0)). xnack_bit28 (regs_trapsts w))
           then QUEUE_STATUS_FAILURE else queueStatus (pQueueList ?a ! 0))"
    by blast
  moreover from f q w have "pWaveList (pQueueList (fst (FindFaultyWaves xnack_bit28 ?a)) ! 0) ! 0 =
             (if agentStatus ?a \<noteq> AGENT_STATUS_UNSUPPORTED \<and>
                 xnack_bit28 (regs_trapsts (pWaveList (pQueueList ?a ! 0) ! 0))
              then (pWaveList (pQueueList ?a ! 0) ! 0)
                     \<lparr>regs_pc := regs_pc (pWaveList (pQueueList ?a ! 0) ! 0) + 8\<rparr>
              else pWaveList (pQueueList ?a ! 0) ! 0)"
    by blast
  ultimately show ?thesis
    using q w x st by (auto simp: sample_agent_def)
qed



section \<open>The memory-fault report\<close>

lemma mask_bit_iff: "(0 < (m AND 2 ^ k)) = bit m k" for m :: u32
  by (simp add: word_gt_0 and_exp_eq_0_iff_not_bit)

lemma mask_bits:
  fixes m :: u32
  shows "(0 < (m AND 0x00000001)) = bit m 0"
    and "(0 < (m AND 0x00000010)) = bit m 4"
    and "(0 < (m AND 0x00000100)) = bit m 8"
    and "(0 < (m AND 0x00001000)) = bit m 12"
    and "(0 < (m AND 0x00010000)) = bit m 16"
    and "(0 < (m AND 0x00100000)) = bit m 20"
  using mask_bit_iff [of m 0] mask_bit_iff [of m 4] mask_bit_iff [of m 8]
    mask_bit_iff [of m 12] mask_bit_iff [of m 16] mask_bit_iff [of m 20]
  by simp_all

lemma page_index: "unat (drop_bit 0xC (a :: u64)) = unat a div 4096"
  by (simp add: unat_drop_bit_eq) (simp add: drop_bit_eq_div)

text \<open>
  Claim C9. When the recorded event is a memory fault, the message handed to the log is the
  node line followed by the address line: the faulting page index (the virtual address
  shifted right by 12 bits, in upper-case hexadecimal) and, between the parentheses, the
  descriptions of the reason bits that are set, each examined on its own, concatenated in
  the order of the bits 0, 4, 8, 12, 16 and 20.
\<close>

lemma append_if_tail: "(if c then xs @ d else xs) = xs @ (if c then d else [])"
  by simp

theorem PrintVMFaultInfo_report:
  assumes "eventType ev = DEBUG_AGENT_EVENT_MEMORY_FAULT"
  shows "PrintVMFaultInfo (Some ev) =
     AGENT_PRINT
       (''\<newline>Memory access fault at GPU Node: '' @ show_dec (unat (mf_nodeId (memoryFault ev)))
        @ ''\<newline>Address: 0x'' @ show_hex_upper (unat (virtualAddress (memoryFault ev)) div 4096)
        @ ''xxx (''
        @ concat (map (\<lambda>(b, d). if bit (faultReasonMask (memoryFault ev)) b then d else [])
            [(0, ''page not present;''),
             (4, ''write access to a read-only page;''),
             (8, ''execute access to a non-executable page;''),
             (12, ''access to host access only;''),
             (16, ''uncorrectable ECC failure;''),
             (20, ''can't determine the exact fault address;'')])
        @ '')\<newline>\<newline>'')"
  using assms
  by (simp only: PrintVMFaultInfo_def Let_def mask_bits page_index append_if_tail)
     (simp cong: if_cong)


theorem PrintVMFaultInfo_report_witness:
  "eventType \<lparr>eventType = DEBUG_AGENT_EVENT_MEMORY_FAULT,
       memoryFault = \<lparr>mf_nodeId = 2, virtualAddress = 0x7F00ABCDE123, faultReasonMask = 0x11\<rparr>\<rparr>
     = DEBUG_AGENT_EVENT_MEMORY_FAULT \<and>
   PrintVMFaultInfo (Some \<lparr>eventType = DEBUG_AGENT_EVENT_MEMORY_FAULT,
       memoryFault = \<lparr>mf_nodeId = 2, virtualAddress = 0x7F00ABCDE123, faultReasonMask = 0x11\<rparr>\<rparr>)
     = AGENT_PRINT ''\<newline>Memory access fault at GPU Node: 2\<newline>Address: 0x7F00ABCDExxx (page not present;write access to a read-only page;)\<newline>\<newline>''"
proof -
  let ?ev = "\<lparr>eventType = DEBUG_AGENT_EVENT_MEMORY_FAULT,
       memoryFault = \<lparr>mf_nodeId = 2, virtualAddress = 0x7F00ABCDE123, faultReasonMask = 0x11\<rparr>\<rparr>"
  have h: "eventType ?ev = DEBUG_AGENT_EVENT_MEMORY_FAULT" by simp
  show ?thesis
    using PrintVMFaultInfo_report [OF h]
    by (simp add: show_dec.simps show_hex_upper.simps digit_char_def)
qed

section \<open>The symbol index\<close>


lemma add_symbol_skip: "\<not> is_function_symbol s \<Longrightarrow> add_symbol la s m = m"
  by (auto simp: add_symbol_def is_function_symbol_def)

lemma fold_add_symbol_filter:
  "fold (add_symbol la) syms m = fold (add_symbol la) (filter is_function_symbol syms) m"
  by (induction syms arbitrary: m) (simp_all add: add_symbol_skip)

lemma add_section_eq: "add_section la scn m = fold (add_symbol la) (section_symbols scn) m"
  using fold_add_symbol_filter [of la _ m]
  by (auto simp: add_section_def section_symbols_def split: option.split)

lemma fold_add_section:
  "fold (add_section la) scns m = fold (add_symbol la) (concat (map section_symbols scns)) m"
  by (induction scns arbitrary: m) (simp_all add: add_section_eq)

lemma std_map_ok_add_symbol: "std_map_ok m \<Longrightarrow> std_map_ok (add_symbol la s m)"
  by (simp add: add_symbol_def Let_def std_map_ok_insert std_map_ok_assign split: option.split)

lemma std_map_find_add_symbol:
  assumes "std_map_ok m" "is_function_symbol s"
  shows "std_map_find (add_symbol la s m) k =
     (if k = la + st_value s
      then Some (case std_map_find m k of
                   None \<Rightarrow> (st_name s, st_size s)
                 | Some (n0, s0) \<Rightarrow> if st_size s > s0 then (st_name s, st_size s) else (n0, s0))
      else std_map_find m k)"
  using assms
  by (auto simp: add_symbol_def is_function_symbol_def Let_def std_map_find_insert
        std_map_find_assign std_map_ok_insert split: option.split)

lemma find_snoc:
  "find P (xs @ [x]) = (case find P xs of None \<Rightarrow> (if P x then Some x else None) | Some y \<Rightarrow> Some y)"
  by (induction xs) auto

lemma find_None_iff': "(find P xs = None) = (\<forall>x\<in>set xs. \<not> P x)"
  by (induction xs) auto

lemma symbol_scan:
  assumes "\<forall>s\<in>set xs. is_function_symbol s"
  shows "std_map_ok (fold (add_symbol la) xs []) \<and>
     (\<forall>k. case std_map_find (fold (add_symbol la) xs []) k of
            None \<Rightarrow> \<forall>s\<in>set xs. la + st_value s \<noteq> k
          | Some (n, sz) \<Rightarrow>
              (\<exists>s. find (\<lambda>s. la + st_value s = k \<and> st_size s = sz) xs = Some s \<and> st_name s = n) \<and>
              (\<forall>s\<in>set xs. la + st_value s = k \<longrightarrow> st_size s \<le> sz))"
  using assms
proof (induction xs rule: rev_induct)
  case Nil
  then show ?case by (simp add: std_map_ok_def std_map_find_def)
next
  case (snoc x xs)
  let ?M = "fold (add_symbol la) xs []"
  have fx: "is_function_symbol x" and fxs: "\<forall>s\<in>set xs. is_function_symbol s"
    using snoc.prems by simp_all
  have ok: "std_map_ok ?M" and inv: "\<And>k. case std_map_find ?M k of
            None \<Rightarrow> \<forall>s\<in>set xs. la + st_value s \<noteq> k
          | Some (n, sz) \<Rightarrow>
              (\<exists>s. find (\<lambda>s. la + st_value s = k \<and> st_size s = sz) xs = Some s \<and> st_name s = n) \<and>
              (\<forall>s\<in>set xs. la + st_value s = k \<longrightarrow> st_size s \<le> sz)"
    using snoc.IH [OF fxs] by simp_all
  have step: "fold (add_symbol la) (xs @ [x]) [] = add_symbol la x ?M" by simp
  show ?case
  proof (intro conjI allI)
    show "std_map_ok (fold (add_symbol la) (xs @ [x]) [])"
      unfolding step using ok by (rule std_map_ok_add_symbol)
  next
    fix k
    show "case std_map_find (fold (add_symbol la) (xs @ [x]) []) k of
            None \<Rightarrow> \<forall>s\<in>set (xs @ [x]). la + st_value s \<noteq> k
          | Some (n, sz) \<Rightarrow>
              (\<exists>s. find (\<lambda>s. la + st_value s = k \<and> st_size s = sz) (xs @ [x]) = Some s \<and> st_name s = n) \<and>
              (\<forall>s\<in>set (xs @ [x]). la + st_value s = k \<longrightarrow> st_size s \<le> sz)"
    proof (cases "k = la + st_value x")
      case False
      then show ?thesis
        unfolding step using inv [of k]
        by (auto simp: std_map_find_add_symbol [OF ok fx] find_snoc split: option.splits)
    next
      case True
      show ?thesis
      proof (cases "std_map_find ?M k")
        case None
        then have no: "\<forall>s\<in>set xs. la + st_value s \<noteq> k" using inv [of k] by simp
        then have "find (\<lambda>s. la + st_value s = k \<and> st_size s = st_size x) xs = None"
          by (simp add: find_None_iff')
        with None True no show ?thesis
          unfolding step
          by (simp add: std_map_find_add_symbol [OF ok fx] find_snoc)
      next
        case (Some v)
        obtain n0 s0 where v: "v = (n0, s0)" by (cases v)
        from Some v inv [of k] obtain s where
          s: "find (\<lambda>s. la + st_value s = k \<and> st_size s = s0) xs = Some s" "st_name s = n0"
          and le: "\<forall>s\<in>set xs. la + st_value s = k \<longrightarrow> st_size s \<le> s0"
          by auto
        show ?thesis
        proof (cases "st_size x > s0")
          case gt: True
          have "find (\<lambda>s. la + st_value s = k \<and> st_size s = st_size x) xs = None"
            using le gt by (auto simp: find_None_iff')
          with gt Some v True le show ?thesis
            unfolding step
            by (auto simp: std_map_find_add_symbol [OF ok fx] find_snoc intro: less_imp_le order_trans)
        next
          case ngt: False
          with Some v True le s show ?thesis
            unfolding step
            by (auto simp: std_map_find_add_symbol [OF ok fx] find_snoc)
        qed
      qed
    qed
  qed
qed


lemma load_symbol_map_fresh:
  assumes "m_fd co = Some fd" "m_symbol_map co = None"
    and "fd_contents os fd = Some bytes" "elf_begin e bytes = Some elf"
  shows "load_symbol_map e os co =
     Inr (co\<lparr>m_symbol_map :=
            Some (fold (add_symbol (m_load_address co)) (function_symbols elf) [])\<rparr>)"
  using assms by (simp add: load_symbol_map_def fold_add_section function_symbols_def)

lemma function_symbols_are: "\<forall>s\<in>set (function_symbols elf). is_function_symbol s"
  by (auto simp: function_symbols_def section_symbols_def split: option.splits if_splits)

lemma find_Some_D: "find P xs = Some x \<Longrightarrow> x \<in> set xs \<and> P x"
  by (induction xs) (auto split: if_splits)

lemma symbol_index_ok: "std_map_ok (fold (add_symbol la) (function_symbols elf) [])"
  using symbol_scan [where xs = "function_symbols elf" and la = la, OF function_symbols_are]
  by simp

lemma symbol_index_None:
  assumes "std_map_find (fold (add_symbol la) (function_symbols elf) []) k = None"
    and "s \<in> set (function_symbols elf)"
  shows "la + st_value s \<noteq> k"
proof -
  have "case std_map_find (fold (add_symbol la) (function_symbols elf) []) k of
            None \<Rightarrow> \<forall>s\<in>set (function_symbols elf). la + st_value s \<noteq> k
          | Some (n, sz) \<Rightarrow>
              (\<exists>s. find (\<lambda>s. la + st_value s = k \<and> st_size s = sz) (function_symbols elf) = Some s \<and> st_name s = n) \<and>
              (\<forall>s\<in>set (function_symbols elf). la + st_value s = k \<longrightarrow> st_size s \<le> sz)"
    using symbol_scan [where xs = "function_symbols elf" and la = la, OF function_symbols_are]
    by blast
  with assms show ?thesis by simp
qed

lemma symbol_index_Some:
  assumes "std_map_find (fold (add_symbol la) (function_symbols elf) []) k = Some (n, sz)"
  shows "\<exists>s. find (\<lambda>s. la + st_value s = k \<and> st_size s = sz) (function_symbols elf) = Some s \<and> st_name s = n"
    and "\<forall>s\<in>set (function_symbols elf). la + st_value s = k \<longrightarrow> st_size s \<le> sz"
proof -
  have "case std_map_find (fold (add_symbol la) (function_symbols elf) []) k of
            None \<Rightarrow> \<forall>s\<in>set (function_symbols elf). la + st_value s \<noteq> k
          | Some (n, sz) \<Rightarrow>
              (\<exists>s. find (\<lambda>s. la + st_value s = k \<and> st_size s = sz) (function_symbols elf) = Some s \<and> st_name s = n) \<and>
              (\<forall>s\<in>set (function_symbols elf). la + st_value s = k \<longrightarrow> st_size s \<le> sz)"
    using symbol_scan [where xs = "function_symbols elf" and la = la, OF function_symbols_are]
    by blast
  with assms show
    "\<exists>s. find (\<lambda>s. la + st_value s = k \<and> st_size s = sz) (function_symbols elf) = Some s \<and> st_name s = n"
    "\<forall>s\<in>set (function_symbols elf). la + st_value s = k \<longrightarrow> st_size s \<le> sz"
    by simp_all
qed

lemma symbol_index_collision:
  assumes "s \<in> set (function_symbols elf)"
  shows "\<exists>n sz. (la + st_value s, n, sz) \<in> set (fold (add_symbol la) (function_symbols elf) []) \<and>
          st_size s \<le> sz \<and>
          (\<exists>s' \<in> set (function_symbols elf).
             st_value s' = st_value s \<and> st_name s' = n \<and> st_size s' = sz)"
proof (cases "std_map_find (fold (add_symbol la) (function_symbols elf) []) (la + st_value s)")
  case None
  then show ?thesis using symbol_index_None [OF _ assms] by blast
next
  case (Some v)
  let ?m = "fold (add_symbol la) (function_symbols elf) []"
  obtain n sz where v: "v = (n, sz)" by (cases v)
  have fnd: "std_map_find ?m (la + st_value s) = Some (n, sz)" using Some v by simp
  from symbol_index_Some(1) [OF fnd] obtain s' where
    s': "find (\<lambda>x. la + st_value x = la + st_value s \<and> st_size x = sz) (function_symbols elf) = Some s'"
      "st_name s' = n"
    by blast
  have le: "\<forall>x\<in>set (function_symbols elf). la + st_value x = la + st_value s \<longrightarrow> st_size x \<le> sz"
    by (rule symbol_index_Some(2) [OF fnd])
  have "(la + st_value s, n, sz) \<in> set ?m"
    using fnd symbol_index_ok [of la elf] by (simp add: std_map_find_iff)
  moreover have "st_size s \<le> sz" using le assms by simp
  moreover have "s' \<in> set (function_symbols elf) \<and> st_value s' = st_value s \<and> st_size s' = sz"
    using find_Some_D [OF s'(1)] by simp
  ultimately show ?thesis using s'(2) by blast
qed

lemma load_symbol_map_cached:
  "m_fd co = Some fd \<Longrightarrow> m_symbol_map co = Some m \<Longrightarrow> load_symbol_map e os co = Inr co"
  by (simp add: load_symbol_map_def)

lemma find_symbol_cached:
  assumes "m_fd co = Some fd" and "m_symbol_map co = Some m" and "std_map_ok m"
  shows "\<exists>found. find_symbol e os co address = Inr (found, co) \<and>
     (\<forall>info. found = Some info \<longrightarrow>
        (\<exists>name. (m_value info, name, m_size info) \<in> set m \<and>
           m_name info = (case cxa_demangle e name of Some d \<Rightarrow> d | None \<Rightarrow> name)) \<and>
        m_value info \<le> address \<and>
        (\<forall>(k, v) \<in> set m. k \<le> address \<longrightarrow> k \<le> m_value info) \<and>
        address < m_value info + m_size info) \<and>
     (found = None \<longrightarrow>
        (\<forall>(k, n, sz) \<in> set m.
           k \<le> address \<and> (\<forall>(k', v) \<in> set m. k' \<le> address \<longrightarrow> k' \<le> k) \<longrightarrow>
           \<not> address < k + sz))"
proof -
  let ?it = "std_map_upper_bound address m"
  have load: "load_symbol_map e os co = Inr co"
    using assms(1,2) by (rule load_symbol_map_cached)
  note ok = assms(3)
  show ?thesis
  proof (cases "?it = 0")
    case True
    then have none: "\<forall>e\<in>set m. address < fst e"
      using upper_bound_zero [OF ok, of address] by simp
    have "find_symbol e os co address = Inr (None, co)"
      using True assms(2) by (simp add: find_symbol_def load)
    moreover have "\<forall>(k, n, sz) \<in> set m.
           k \<le> address \<and> (\<forall>(k', v) \<in> set m. k' \<le> address \<longrightarrow> k' \<le> k) \<longrightarrow>
           \<not> address < k + sz"
      using none by fastforce
    ultimately show ?thesis by auto
  next
    case False
    obtain k n sz where ent: "m ! (?it - 1) = (k, n, sz)"
      by (cases "m ! (?it - 1)") auto
    note prev = upper_bound_prev [OF ok False]
    have mem: "(k, n, sz) \<in> set m" using prev(1) ent by simp
    have le: "k \<le> address" using prev(2) ent by simp
    have gr: "\<forall>(k', v) \<in> set m. k' \<le> address \<longrightarrow> k' \<le> k"
      using prev(3) ent by auto
    show ?thesis
    proof (cases "address < k + sz")
      case True
      have "find_symbol e os co address =
          Inr (Some \<lparr>m_name = (case cxa_demangle e n of Some d \<Rightarrow> d | None \<Rightarrow> n),
                     m_value = k, m_size = sz\<rparr>, co)"
        using False True ent assms(2) by (simp add: find_symbol_def load Let_def)
      then show ?thesis using mem le gr True by auto
    next
      case nc: False
      have "find_symbol e os co address = Inr (None, co)"
        using False nc ent assms(2) by (simp add: find_symbol_def load)
      moreover have "\<forall>(k', n', sz') \<in> set m.
           k' \<le> address \<and> (\<forall>(k'', v) \<in> set m. k'' \<le> address \<longrightarrow> k'' \<le> k') \<longrightarrow>
           \<not> address < k' + sz'"
      proof (intro ballI, clarify)
        fix k' n' sz'
        assume e': "(k', n', sz') \<in> set m" "k' \<le> address"
          "\<forall>(k'', v) \<in> set m. k'' \<le> address \<longrightarrow> k'' \<le> k'" "address < k' + sz'"
        have "k \<le> k'" using e'(3) mem le by auto
        moreover have "k' \<le> k" using gr e'(1,2) by auto
        ultimately have "k' = k" by simp
        then have "(n', sz') = (n, sz)"
          using e'(1) mem std_map_ok_distinct [OF ok]
          by (metis eq_key_imp_eq_value)
        then show False using e'(4) nc \<open>k' = k\<close> by simp
      qed
      ultimately show ?thesis by auto
    qed
  qed
qed

lemma find_symbol_after_load:
  assumes "load_symbol_map e os co = Inr co1" and "load_symbol_map e os co1 = Inr co1"
  shows "find_symbol e os co address = find_symbol e os co1 address"
  using assms by (simp add: find_symbol_def)

text \<open>
  Claim C2. Let the code object be open. When its symbol index \<open>m\<close> has been built (with
  its keys in increasing order, as in every \<^verbatim>\<open>std::map\<close>), \<^verbatim>\<open>find_symbol\<close> returns without
  failure and leaves the object as it is; when the index has not been built and libelf can
  read the file, \<^verbatim>\<open>find_symbol\<close> builds the index \<open>m\<close>, stores it in the object and returns
  without failure. In both cases a returned symbol is an entry of the index (its name
  demangled when the demangler succeeds) whose start is the greatest key not above the
  address, and the address lies below start plus size (in 64-bit arithmetic); and no symbol
  is returned only when the entry with the greatest key not above the address, if there
  is one, fails that test. And of the function symbols recorded at one address the index
  that is built keeps one of the largest size: for every recorded symbol, the entry at its
  address is a recorded symbol of that address whose size is at least the size of the
  symbol.
\<close>

theorem find_symbol_lookup:
  assumes "m_fd co = Some fd"
  shows "(\<forall>m. m_symbol_map co = Some m \<and> std_map_ok m \<longrightarrow>
      (\<exists>found. find_symbol e os co address = Inr (found, co) \<and>
         (\<forall>info. found = Some info \<longrightarrow>
            (\<exists>name. (m_value info, name, m_size info) \<in> set m \<and>
               m_name info = (case cxa_demangle e name of Some d \<Rightarrow> d | None \<Rightarrow> name)) \<and>
            m_value info \<le> address \<and>
            (\<forall>(k, v) \<in> set m. k \<le> address \<longrightarrow> k \<le> m_value info) \<and>
            address < m_value info + m_size info) \<and>
         (found = None \<longrightarrow>
            (\<forall>(k, n, sz) \<in> set m.
               k \<le> address \<and> (\<forall>(k', v) \<in> set m. k' \<le> address \<longrightarrow> k' \<le> k) \<longrightarrow>
               \<not> address < k + sz)))) \<and>
     (\<forall>bytes elf. m_symbol_map co = None \<and> fd_contents os fd = Some bytes \<and>
        elf_begin e bytes = Some elf \<longrightarrow>
      (\<exists>found m. find_symbol e os co address = Inr (found, co\<lparr>m_symbol_map := Some m\<rparr>) \<and>
         std_map_ok m \<and>
         (\<forall>info. found = Some info \<longrightarrow>
            (\<exists>name. (m_value info, name, m_size info) \<in> set m \<and>
               m_name info = (case cxa_demangle e name of Some d \<Rightarrow> d | None \<Rightarrow> name)) \<and>
            m_value info \<le> address \<and>
            (\<forall>(k, v) \<in> set m. k \<le> address \<longrightarrow> k \<le> m_value info) \<and>
            address < m_value info + m_size info) \<and>
         (found = None \<longrightarrow>
            (\<forall>(k, n, sz) \<in> set m.
               k \<le> address \<and> (\<forall>(k', v) \<in> set m. k' \<le> address \<longrightarrow> k' \<le> k) \<longrightarrow>
               \<not> address < k + sz)) \<and>
         (\<forall>s \<in> set (function_symbols elf).
            \<exists>n sz. (m_load_address co + st_value s, n, sz) \<in> set m \<and> st_size s \<le> sz \<and>
              (\<exists>s' \<in> set (function_symbols elf).
                 st_value s' = st_value s \<and> st_name s' = n \<and> st_size s' = sz))))"
proof (rule conjI)
  show "\<forall>m. m_symbol_map co = Some m \<and> std_map_ok m \<longrightarrow>
      (\<exists>found. find_symbol e os co address = Inr (found, co) \<and>
         (\<forall>info. found = Some info \<longrightarrow>
            (\<exists>name. (m_value info, name, m_size info) \<in> set m \<and>
               m_name info = (case cxa_demangle e name of Some d \<Rightarrow> d | None \<Rightarrow> name)) \<and>
            m_value info \<le> address \<and>
            (\<forall>(k, v) \<in> set m. k \<le> address \<longrightarrow> k \<le> m_value info) \<and>
            address < m_value info + m_size info) \<and>
         (found = None \<longrightarrow>
            (\<forall>(k, n, sz) \<in> set m.
               k \<le> address \<and> (\<forall>(k', v) \<in> set m. k' \<le> address \<longrightarrow> k' \<le> k) \<longrightarrow>
               \<not> address < k + sz)))"
    using find_symbol_cached [OF assms] by blast
next
  show "\<forall>bytes elf. m_symbol_map co = None \<and> fd_contents os fd = Some bytes \<and>
        elf_begin e bytes = Some elf \<longrightarrow>
      (\<exists>found m. find_symbol e os co address = Inr (found, co\<lparr>m_symbol_map := Some m\<rparr>) \<and>
         std_map_ok m \<and>
         (\<forall>info. found = Some info \<longrightarrow>
            (\<exists>name. (m_value info, name, m_size info) \<in> set m \<and>
               m_name info = (case cxa_demangle e name of Some d \<Rightarrow> d | None \<Rightarrow> name)) \<and>
            m_value info \<le> address \<and>
            (\<forall>(k, v) \<in> set m. k \<le> address \<longrightarrow> k \<le> m_value info) \<and>
            address < m_value info + m_size info) \<and>
         (found = None \<longrightarrow>
            (\<forall>(k, n, sz) \<in> set m.
               k \<le> address \<and> (\<forall>(k', v) \<in> set m. k' \<le> address \<longrightarrow> k' \<le> k) \<longrightarrow>
               \<not> address < k + sz)) \<and>
         (\<forall>s \<in> set (function_symbols elf).
            \<exists>n sz. (m_load_address co + st_value s, n, sz) \<in> set m \<and> st_size s \<le> sz \<and>
              (\<exists>s' \<in> set (function_symbols elf).
                 st_value s' = st_value s \<and> st_name s' = n \<and> st_size s' = sz)))"
  proof (intro allI impI)
    fix bytes elf
    assume h: "m_symbol_map co = None \<and> fd_contents os fd = Some bytes \<and>
        elf_begin e bytes = Some elf"
    let ?m = "fold (add_symbol (m_load_address co)) (function_symbols elf) []"
    let ?co = "co\<lparr>m_symbol_map := Some ?m\<rparr>"
    have load: "load_symbol_map e os co = Inr ?co"
      using load_symbol_map_fresh [of co fd os bytes e elf] assms h by simp
    have fd1: "m_fd ?co = Some fd" using assms by simp
    have m1: "m_symbol_map ?co = Some ?m" by simp
    have ok: "std_map_ok ?m" by (rule symbol_index_ok)
    have again: "load_symbol_map e os ?co = Inr ?co"
      using fd1 m1 by (rule load_symbol_map_cached)
    have eq: "find_symbol e os co address = find_symbol e os ?co address"
      using load again by (rule find_symbol_after_load)
    from find_symbol_cached [OF fd1 m1 ok, of e os address] obtain found where
      f: "find_symbol e os ?co address = Inr (found, ?co)"
      and l1: "\<forall>info. found = Some info \<longrightarrow>
            (\<exists>name. (m_value info, name, m_size info) \<in> set ?m \<and>
               m_name info = (case cxa_demangle e name of Some d \<Rightarrow> d | None \<Rightarrow> name)) \<and>
            m_value info \<le> address \<and>
            (\<forall>(k, v) \<in> set ?m. k \<le> address \<longrightarrow> k \<le> m_value info) \<and>
            address < m_value info + m_size info"
      and l2: "found = None \<longrightarrow>
            (\<forall>(k, n, sz) \<in> set ?m.
               k \<le> address \<and> (\<forall>(k', v) \<in> set ?m. k' \<le> address \<longrightarrow> k' \<le> k) \<longrightarrow>
               \<not> address < k + sz)"
      by blast
    have coll: "\<forall>s \<in> set (function_symbols elf).
            \<exists>n sz. (m_load_address co + st_value s, n, sz) \<in> set ?m \<and> st_size s \<le> sz \<and>
              (\<exists>s' \<in> set (function_symbols elf).
                 st_value s' = st_value s \<and> st_name s' = n \<and> st_size s' = sz)"
      using symbol_index_collision by blast
    show "\<exists>found m. find_symbol e os co address = Inr (found, co\<lparr>m_symbol_map := Some m\<rparr>) \<and>
         std_map_ok m \<and>
         (\<forall>info. found = Some info \<longrightarrow>
            (\<exists>name. (m_value info, name, m_size info) \<in> set m \<and>
               m_name info = (case cxa_demangle e name of Some d \<Rightarrow> d | None \<Rightarrow> name)) \<and>
            m_value info \<le> address \<and>
            (\<forall>(k, v) \<in> set m. k \<le> address \<longrightarrow> k \<le> m_value info) \<and>
            address < m_value info + m_size info) \<and>
         (found = None \<longrightarrow>
            (\<forall>(k, n, sz) \<in> set m.
               k \<le> address \<and> (\<forall>(k', v) \<in> set m. k' \<le> address \<longrightarrow> k' \<le> k) \<longrightarrow>
               \<not> address < k + sz)) \<and>
         (\<forall>s \<in> set (function_symbols elf).
            \<exists>n sz. (m_load_address co + st_value s, n, sz) \<in> set m \<and> st_size s \<le> sz \<and>
              (\<exists>s' \<in> set (function_symbols elf).
                 st_value s' = st_value s \<and> st_name s' = n \<and> st_size s' = sz))"
      apply (rule exI [of _ found])
      apply (rule exI [of _ ?m])
      using f l1 l2 coll ok eq
      apply (intro conjI)
           apply simp_all
      done
  qed
qed

theorem find_symbol_lookup_witness:
  "m_fd sample_open_code_object = Some 0 \<and>
   m_symbol_map sample_open_code_object = None \<and>
   fd_contents sample_open_os 0 = Some ''0123456789'' \<and>
   elf_begin sample_env ''0123456789'' = Some sample_elf \<and>
   find_symbol sample_env sample_open_os sample_open_code_object 0x203
     = Inr (Some \<lparr>m_name = ''g8'', m_value = 0x200, m_size = 8\<rparr>,
            sample_open_code_object\<lparr>m_symbol_map := Some [(0x100, ''f'', 0x10), (0x200, ''g8'', 8)]\<rparr>) \<and>
   (\<exists>found m.
      find_symbol sample_env sample_open_os sample_open_code_object 0x203
        = Inr (found, sample_open_code_object\<lparr>m_symbol_map := Some m\<rparr>) \<and>
      (\<forall>info. found = Some info \<longrightarrow>
         m_value info \<le> 0x203 \<and> 0x203 < m_value info + m_size info)) \<and>
   m_fd sample_loaded_code_object = Some 0 \<and>
   m_symbol_map sample_loaded_code_object = Some [(0x100, ''f'', 0x10), (0x200, ''g8'', 8)] \<and>
   std_map_ok [(0x100 :: u64, ''f'', 0x10 :: u64), (0x200, ''g8'', 8)] \<and>
   (\<exists>found.
      find_symbol sample_env sample_open_os sample_loaded_code_object 0x110
        = Inr (found, sample_loaded_code_object) \<and>
      (found = None \<longrightarrow>
         (\<forall>(k, n, sz) \<in> set [(0x100 :: u64, ''f'', 0x10 :: u64), (0x200, ''g8'', 8)].
            k \<le> 0x110 \<and>
            (\<forall>(k', v) \<in> set [(0x100 :: u64, ''f'', 0x10 :: u64), (0x200, ''g8'', 8)].
               k' \<le> 0x110 \<longrightarrow> k' \<le> k) \<longrightarrow>
            \<not> 0x110 < k + sz))) \<and>
   find_symbol sample_env sample_open_os sample_loaded_code_object 0x110
     = Inr (None, sample_loaded_code_object)"
proof -
  let ?m = "[(0x100 :: u64, ''f'', 0x10 :: u64), (0x200, ''g8'', 8)]"
  have h1: "m_fd sample_open_code_object = Some 0"
    by (simp add: sample_open_code_object_def)
  have h2: "m_symbol_map sample_open_code_object = None"
    by (simp add: sample_open_code_object_def sample_code_object_def)
  have h3: "fd_contents sample_open_os 0 = Some ''0123456789''"
    by (simp add: fd_contents_def sample_open_os_def)
  have h4: "elf_begin sample_env ''0123456789'' = Some sample_elf"
    by (simp add: sample_env_def)
  have ev: "find_symbol sample_env sample_open_os sample_open_code_object 0x203
     = Inr (Some \<lparr>m_name = ''g8'', m_value = 0x200, m_size = 8\<rparr>,
            sample_open_code_object\<lparr>m_symbol_map := Some ?m\<rparr>)"
    by code_simp
  note fresh = conjunct2 [OF find_symbol_lookup [OF h1, of sample_env sample_open_os "0x203"]]
  have "\<exists>found m.
      find_symbol sample_env sample_open_os sample_open_code_object 0x203
        = Inr (found, sample_open_code_object\<lparr>m_symbol_map := Some m\<rparr>) \<and>
      (\<forall>info. found = Some info \<longrightarrow>
         m_value info \<le> 0x203 \<and> 0x203 < m_value info + m_size info)"
    using fresh h2 h3 h4 by blast
  note a = this
  have g1: "m_fd sample_loaded_code_object = Some 0"
    by (simp add: sample_loaded_code_object_def sample_open_code_object_def)
  have g2: "m_symbol_map sample_loaded_code_object = Some ?m"
    by (simp add: sample_loaded_code_object_def)
  have g3: "std_map_ok ?m"
    by (simp add: std_map_ok_def)
  note cached = conjunct1 [OF find_symbol_lookup [OF g1, of sample_env sample_open_os "0x110"]]
  have b: "\<exists>found.
      find_symbol sample_env sample_open_os sample_loaded_code_object 0x110
        = Inr (found, sample_loaded_code_object) \<and>
      (found = None \<longrightarrow>
         (\<forall>(k, n, sz) \<in> set ?m.
            k \<le> 0x110 \<and> (\<forall>(k', v) \<in> set ?m. k' \<le> 0x110 \<longrightarrow> k' \<le> k) \<longrightarrow>
            \<not> 0x110 < k + sz))"
    using cached g2 g3 by blast
  have ev2: "find_symbol sample_env sample_open_os sample_loaded_code_object 0x110
     = Inr (None, sample_loaded_code_object)"
    by code_simp
  from h1 h2 h3 h4 ev a g1 g2 g3 b ev2 show ?thesis by (intro conjI)
qed

text \<open>
  Claim C10. For an open code object whose symbol index has not been built and whose file
  libelf can read, \<^verbatim>\<open>load_symbol_map\<close> builds an index with its keys in strictly increasing
  order, so with one entry for an address, in which every recorded function symbol has an
  entry at its load address, and in which the entry at an address has the name and size
  of the first symbol, in the order of the scan, among the recorded function symbols of
  that address that have the size of the entry, while no recorded symbol of that address
  is larger: among symbols of equal size at one address the first one stays. In the step
  of the scan itself, a function symbol that meets an entry at its address replaces it
  exactly when its size is strictly larger than the stored size.
\<close>

theorem load_symbol_map_keeps_first:
  assumes "m_fd co = Some fd" and "m_symbol_map co = None"
    and "fd_contents os fd = Some bytes" and "elf_begin e bytes = Some elf"
  shows "\<exists>m. load_symbol_map e os co = Inr (co\<lparr>m_symbol_map := Some m\<rparr>) \<and>
     std_map_ok m \<and>
     (\<forall>s \<in> set (function_symbols elf).
        \<exists>n sz. (m_load_address co + st_value s, n, sz) \<in> set m) \<and>
     (\<forall>(k, n, sz) \<in> set m.
        (\<exists>s. find (\<lambda>s. m_load_address co + st_value s = k \<and> st_size s = sz)
                (function_symbols elf) = Some s \<and> st_name s = n) \<and>
        (\<forall>s \<in> set (function_symbols elf).
           m_load_address co + st_value s = k \<longrightarrow> st_size s \<le> sz)) \<and>
     (\<forall>la m0 s n0 s0.
        std_map_ok m0 \<and> is_function_symbol s \<and>
        std_map_find m0 (la + st_value s) = Some (n0, s0) \<longrightarrow>
        std_map_find (add_symbol la s m0) (la + st_value s) =
          Some (if s0 < st_size s then (st_name s, st_size s) else (n0, s0)))"
proof -
  let ?la = "m_load_address co"
  let ?m = "fold (add_symbol ?la) (function_symbols elf) []"
  have load: "load_symbol_map e os co = Inr (co\<lparr>m_symbol_map := Some ?m\<rparr>)"
    by (rule load_symbol_map_fresh [OF assms])
  have ok: "std_map_ok ?m" by (rule symbol_index_ok)
  have ent: "(\<exists>s. find (\<lambda>s. ?la + st_value s = k \<and> st_size s = sz)
                (function_symbols elf) = Some s \<and> st_name s = n) \<and>
        (\<forall>s \<in> set (function_symbols elf). ?la + st_value s = k \<longrightarrow> st_size s \<le> sz)"
    if "(k, n, sz) \<in> set ?m" for k n sz
  proof -
    have "std_map_find ?m k = Some (n, sz)"
      using that ok by (simp add: std_map_find_iff)
    then show ?thesis
      using symbol_index_Some [of ?la elf k n sz] by blast
  qed
  have step: "std_map_find (add_symbol la s m0) (la + st_value s) =
          Some (if s0 < st_size s then (st_name s, st_size s) else (n0, s0))"
    if "std_map_ok m0" "is_function_symbol s" "std_map_find m0 (la + st_value s) = Some (n0, s0)"
    for la m0 s n0 s0
    using that by (simp add: std_map_find_add_symbol)
  have has: "\<forall>s \<in> set (function_symbols elf). \<exists>n sz. (?la + st_value s, n, sz) \<in> set ?m"
    using symbol_index_collision [of _ elf ?la] by blast
  have c4: "\<forall>(k, n, sz) \<in> set ?m.
        (\<exists>s. find (\<lambda>s. ?la + st_value s = k \<and> st_size s = sz)
                (function_symbols elf) = Some s \<and> st_name s = n) \<and>
        (\<forall>s \<in> set (function_symbols elf). ?la + st_value s = k \<longrightarrow> st_size s \<le> sz)"
    using ent by fast
  have c5: "\<forall>la m0 s n0 s0.
        std_map_ok m0 \<and> is_function_symbol s \<and>
        std_map_find m0 (la + st_value s) = Some (n0, s0) \<longrightarrow>
        std_map_find (add_symbol la s m0) (la + st_value s) =
          Some (if s0 < st_size s then (st_name s, st_size s) else (n0, s0))"
    using step by blast
  from load ok has c4 c5 show ?thesis
    by (intro exI [of _ ?m] conjI)
qed

theorem load_symbol_map_keeps_first_witness:
  "m_fd sample_open_code_object = Some 0 \<and>
   m_symbol_map sample_open_code_object = None \<and>
   fd_contents sample_open_os 0 = Some ''0123456789'' \<and>
   elf_begin sample_env ''0123456789'' = Some sample_elf \<and>
   map st_name (function_symbols sample_elf) = [''f'', ''g4'', ''g8'', ''h8''] \<and>
   load_symbol_map sample_env sample_open_os sample_open_code_object
     = Inr (sample_open_code_object\<lparr>m_symbol_map := Some [(0x100, ''f'', 0x10), (0x200, ''g8'', 8)]\<rparr>) \<and>
   (\<exists>s. find (\<lambda>s. m_load_address sample_open_code_object + st_value s = 0x200 \<and> st_size s = 8)
          (function_symbols sample_elf) = Some s \<and> st_name s = ''g8'')"
proof -
  have h1: "m_fd sample_open_code_object = Some 0"
    by (simp add: sample_open_code_object_def)
  have h2: "m_symbol_map sample_open_code_object = None"
    by (simp add: sample_open_code_object_def sample_code_object_def)
  have h3: "fd_contents sample_open_os 0 = Some ''0123456789''"
    by (simp add: fd_contents_def sample_open_os_def)
  have h4: "elf_begin sample_env ''0123456789'' = Some sample_elf"
    by (simp add: sample_env_def)
  have names: "map st_name (function_symbols sample_elf) = [''f'', ''g4'', ''g8'', ''h8'']"
    by code_simp
  have ev: "load_symbol_map sample_env sample_open_os sample_open_code_object
     = Inr (sample_open_code_object\<lparr>m_symbol_map := Some [(0x100, ''f'', 0x10), (0x200, ''g8'', 8)]\<rparr>)"
    by code_simp
  from load_symbol_map_keeps_first [OF h1 h2 h3 h4] obtain m where
    all: "load_symbol_map sample_env sample_open_os sample_open_code_object
          = Inr (sample_open_code_object\<lparr>m_symbol_map := Some m\<rparr>) \<and>
     std_map_ok m \<and>
     (\<forall>s \<in> set (function_symbols sample_elf).
        \<exists>n sz. (m_load_address sample_open_code_object + st_value s, n, sz) \<in> set m) \<and>
     (\<forall>(k, n, sz) \<in> set m.
        (\<exists>s. find (\<lambda>s. m_load_address sample_open_code_object + st_value s = k \<and> st_size s = sz)
                (function_symbols sample_elf) = Some s \<and> st_name s = n) \<and>
        (\<forall>s \<in> set (function_symbols sample_elf).
           m_load_address sample_open_code_object + st_value s = k \<longrightarrow> st_size s \<le> sz)) \<and>
     (\<forall>la m0 s n0 s0.
        std_map_ok m0 \<and> is_function_symbol s \<and>
        std_map_find m0 (la + st_value s) = Some (n0, s0) \<longrightarrow>
        std_map_find (add_symbol la s m0) (la + st_value s) =
          Some (if s0 < st_size s then (st_name s, st_size s) else (n0, s0)))" ..
  from all have m: "load_symbol_map sample_env sample_open_os sample_open_code_object
          = Inr (sample_open_code_object\<lparr>m_symbol_map := Some m\<rparr>)"
    by (rule conjunct1)
  from all have first: "\<forall>(k, n, sz) \<in> set m.
        (\<exists>s. find (\<lambda>s. m_load_address sample_open_code_object + st_value s = k \<and> st_size s = sz)
                (function_symbols sample_elf) = Some s \<and> st_name s = n) \<and>
        (\<forall>s \<in> set (function_symbols sample_elf).
           m_load_address sample_open_code_object + st_value s = k \<longrightarrow> st_size s \<le> sz)"
    by (rule conjunct1 [OF conjunct2 [OF conjunct2 [OF conjunct2]]])
  from m ev have "sample_open_code_object\<lparr>m_symbol_map := Some m\<rparr>
      = sample_open_code_object\<lparr>m_symbol_map := Some [(0x100, ''f'', 0x10), (0x200, ''g8'', 8)]\<rparr>"
    by (simp only: sum.inject)
  then have "m_symbol_map (sample_open_code_object\<lparr>m_symbol_map := Some m\<rparr>)
      = m_symbol_map (sample_open_code_object\<lparr>m_symbol_map := Some [(0x100, ''f'', 0x10), (0x200, ''g8'', 8)]\<rparr>)"
    by (rule arg_cong)
  then have "m = [(0x100, ''f'', 0x10), (0x200, ''g8'', 8)]"
    by simp
  then have "(0x200, ''g8'', 8) \<in> set m" by simp
  with first have "case (0x200, ''g8'', 8) of (k, n, sz) \<Rightarrow>
        (\<exists>s. find (\<lambda>s. m_load_address sample_open_code_object + st_value s = k \<and> st_size s = sz)
                (function_symbols sample_elf) = Some s \<and> st_name s = n) \<and>
        (\<forall>s \<in> set (function_symbols sample_elf).
           m_load_address sample_open_code_object + st_value s = k \<longrightarrow> st_size s \<le> sz)"
    by (rule bspec)
  then have "\<exists>s. find (\<lambda>s. m_load_address sample_open_code_object + st_value s = 0x200 \<and> st_size s = 8)
          (function_symbols sample_elf) = Some s \<and> st_name s = ''g8''"
    by (simp only: prod.case)
  with h1 h2 h3 h4 names ev show ?thesis by (intro conjI)
qed

section \<open>Opening a code object\<close>

subsection \<open>Evaluation of the sample\<close>

lemmas uri_eval = parse_uri_def size_t_of_def str_find_def str_find_first_of_def substr_def
  npos_def tolower_def tokenize.simps str_find_char_def add_token_def params_emplace_def Let_def
  isxdigit_def is_digit_of_def digit_val_def

lemmas stoul_eval = stoul_def isspace_def isxdigit_def is_digit_of_def digit_val_def npos_def

lemmas open_eval = code_object_open_def acquire_def param_number_def materialize_def
  log_event_def read_at_def sample_env_def sample_os_def sample_code_object_def sample_elf_def
  PT_LOAD_def Let_def

lemma parse_size0: "parse_uri ''file:///tmp/a.co?offset=0&size=0''
      = Inr \<lparr>protocol = ''file'', decoded_path = ''/tmp/a.co'',
             params = [(''offset'', ''0''), (''size'', ''0'')]\<rparr>"
  by (simp add: uri_eval)

lemma parse_nosize: "parse_uri ''file:///tmp/a.co?offset=0''
      = Inr \<lparr>protocol = ''file'', decoded_path = ''/tmp/a.co'', params = [(''offset'', ''0'')]\<rparr>"
  by (simp add: uri_eval)

lemma parse_plain: "parse_uri ''file:///tmp/a.co''
      = Inr \<lparr>protocol = ''file'', decoded_path = ''/tmp/a.co'', params = []\<rparr>"
  by (simp add: uri_eval)

lemma parse_offset4: "parse_uri ''file:///tmp/a.co?offset=4''
      = Inr \<lparr>protocol = ''file'', decoded_path = ''/tmp/a.co'', params = [(''offset'', ''4'')]\<rparr>"
  by (simp add: uri_eval)

lemma stoul_0: "stoul ''0'' = Some 0"
  by (simp add: stoul_eval)

lemma stoul_4: "stoul ''4'' = Some 4"
  by (simp add: stoul_eval)

lemma open_size0:
  "code_object_open sample_env (sample_code_object ''file:///tmp/a.co?offset=0&size=0'') sample_os
     = Inr (sample_code_object ''file:///tmp/a.co?offset=0&size=0'', sample_os)"
  by (simp add: code_object_open_def acquire_def param_number_def sample_code_object_def
        parse_size0 stoul_0)

lemma open_nosize:
  "code_object_open sample_env (sample_code_object ''file:///tmp/a.co?offset=0'') sample_os
     = Inr ((sample_code_object ''file:///tmp/a.co?offset=0'')\<lparr>m_mem_size := 0x1800, m_fd := Some 0\<rparr>,
            sample_open_os)"
  by (simp add: open_eval parse_nosize stoul_0 sample_open_os_def)

lemma open_plain:
  "code_object_open sample_env (sample_code_object ''file:///tmp/a.co'') sample_os
     = Inr (sample_open_code_object, sample_open_os)"
  by (simp add: open_eval parse_plain sample_open_os_def sample_open_code_object_def)

lemma open_plain_again:
  "code_object_open sample_env sample_open_code_object sample_open_os
     = Inr (sample_open_code_object\<lparr>m_fd := Some 1\<rparr>,
            \<lparr>tmp_files = [''0123456789'', ''0123456789''],
             io_log = [Open_file ''/tmp/a.co'', Create_tmpfile 0,
                       Open_file ''/tmp/a.co'', Create_tmpfile 1]\<rparr>)"
  by (simp add: open_eval parse_plain sample_open_os_def sample_open_code_object_def)

lemma open_offset4:
  "code_object_open sample_env (sample_code_object ''file:///tmp/a.co?offset=4'') sample_os
     = Inr (sample_code_object ''file:///tmp/a.co?offset=4'',
            \<lparr>tmp_files = [''456789''],
             io_log = [Open_file ''/tmp/a.co'', Create_tmpfile 0, Warning ''elf_begin failed'']\<rparr>)"
  by (simp add: open_eval parse_offset4 stoul_4)

subsection \<open>The steps of open\<close>

lemma read_at_to_end: "offset \<le> length bytes \<Longrightarrow> read_at bytes offset (length bytes - offset) = drop offset bytes"
  by (simp add: read_at_def)

lemma acquire_Buffer:
  assumes "acquire e uri u os = Buffer buf os'"
  shows "\<exists>evs. os' = os\<lparr>io_log := io_log os @ evs\<rparr> \<and>
           (\<forall>os2. acquire e uri u os2 = Buffer buf (os2\<lparr>io_log := io_log os2 @ evs\<rparr>))"
proof (cases "param_number u ''offset''")
  case None
  with assms have "buf = [] \<and> os' = os" by (simp add: acquire_def)
  with None show ?thesis by (intro exI [of _ "[]"]) (simp add: acquire_def)
next
  case off: (Some offset)
  show ?thesis
  proof (cases "param_number u ''size''")
    case None
    with assms off have "buf = [] \<and> os' = os" by (simp add: acquire_def)
    with None off show ?thesis by (intro exI [of _ "[]"]) (simp add: acquire_def)
  next
    case sz: (Some size')
    have nz: "\<not> (map_of (params u) ''size'' \<noteq> None \<and> size' = 0)"
      using assms off sz by (auto simp: acquire_def split: if_splits)
    show ?thesis
    proof (cases "protocol u = ''file''")
      case True
      with assms off sz nz show ?thesis
        by (intro exI [of _ "[Open_file (decoded_path u)]"])
           (auto simp: acquire_def log_event_def Let_def split: option.splits if_splits)
    next
      case False
      then have mem: "protocol u = ''memory''"
        using assms off sz nz by (auto simp: acquire_def split: if_splits)
      show ?thesis
      proof (cases "can_allocate e size'")
        case True
        with assms off sz nz False mem show ?thesis
          by (intro exI [of _ "[Read_memory (of_nat offset) size']"])
             (auto simp: acquire_def log_event_def Let_def split: option.splits if_splits)
      next
        case na: False
        with assms off sz nz False mem show ?thesis
          by (intro exI [of _ "[]"])
             (auto simp: acquire_def log_event_def Let_def split: option.splits if_splits)
      qed
    qed
  qed
qed

lemma phdr_loop_ge: "phdr_loop phdrs m = (m', d) \<Longrightarrow> m \<le> m'"
proof (induction phdrs m rule: phdr_loop.induct)
  case (1 mem_size)
  then show ?case by simp
next
  case (2 phdrs mem_size)
  then show ?case by simp
next
  case (3 phdr phdrs mem_size)
  then show ?case by (auto split: if_splits intro: order_trans [OF max.cobounded1])
qed

lemma phdr_loop_between:
  "phdr_loop phdrs m = (m', True) \<Longrightarrow> m \<le> a \<Longrightarrow> a \<le> m' \<Longrightarrow> phdr_loop phdrs a = (m', True)"
proof (induction phdrs m arbitrary: a rule: phdr_loop.induct)
  case (1 mem_size)
  then show ?case by simp
next
  case (2 phdrs mem_size)
  then show ?case by simp
next
  case (3 phdr phdrs mem_size)
  show ?case
  proof (cases "p_type phdr = PT_LOAD")
    case True
    let ?x = "p_vaddr phdr + p_memsz phdr"
    from "3.prems"(1) True have run: "phdr_loop phdrs (max mem_size ?x) = (m', True)" by simp
    then have "max mem_size ?x \<le> m'" by (rule phdr_loop_ge)
    then have "max a ?x \<le> m'" using "3.prems"(3) by simp
    moreover have "max mem_size ?x \<le> max a ?x" using "3.prems"(2) by (simp add: max.coboundedI1)
    ultimately have "phdr_loop phdrs (max a ?x) = (m', True)"
      using "3.IH" [of "max a ?x"] run True by simp
    with True show ?thesis by simp
  next
    case False
    with "3.prems" "3.IH" [of a] show ?thesis by simp
  qed
qed

lemma phdr_loop_idem: "phdr_loop phdrs m = (m', True) \<Longrightarrow> phdr_loop phdrs m' = (m', True)"
  using phdr_loop_between [of phdrs m m' m'] phdr_loop_ge [of phdrs m m' True] by simp

lemma phdr_loop_fails: "None \<in> set phdrs \<Longrightarrow> snd (phdr_loop phdrs m) = False"
  by (induction phdrs m rule: phdr_loop.induct) auto

lemma materialize_success:
  assumes "materialize e buf co os = (co1, os1)" and "m_fd co = None" and "m_fd co1 \<noteq> None"
  shows "\<exists>elf phdrs ms.
     tmpfile_ok e \<and> write_count e buf = length buf \<and> elf_begin e buf = Some elf \<and>
     elf_phdrs elf = Some phdrs \<and> phdr_loop phdrs (m_mem_size co) = (ms, True) \<and>
     co1 = co\<lparr>m_mem_size := ms, m_fd := Some (length (tmp_files os))\<rparr> \<and>
     os1 = log_event (Create_tmpfile (length (tmp_files os))) (os\<lparr>tmp_files := tmp_files os @ [buf]\<rparr>)"
  using assms
  by (auto simp: materialize_def Let_def split: if_splits option.splits prod.splits)

text \<open>
  Claim C3, as the code has it. Let the URI parse, with an offset that is absent or a
  number. When the size parameter is present and its value is 0, \<^verbatim>\<open>open\<close> returns at once:
  the code object and the outside state are as before, nothing is read and the object is
  not opened. When the scheme is \<^verbatim>\<open>file\<close>, the size parameter is absent, the file can be
  opened and is not shorter than the offset, \<^verbatim>\<open>open\<close> reads the file from the offset to its
  end and goes on to the temporary copy with exactly these bytes.
\<close>

theorem open_size_parameter:
  assumes "parse_uri (m_uri co) = Inr u"
    and "param_number u ''offset'' = Some offset"
  shows "(\<forall>s. map_of (params u) ''size'' = Some s \<and> stoul s = Some 0 \<longrightarrow>
            code_object_open e co os = Inr (co, os)) \<and>
         (\<forall>file. protocol u = ''file'' \<and> map_of (params u) ''size'' = None \<and>
            ifstream e (decoded_path u) = Some file \<and> offset \<le> length file \<and>
            can_allocate e (length file - offset) \<longrightarrow>
            code_object_open e co os =
              Inr (materialize e (drop offset file) co (log_event (Open_file (decoded_path u)) os)))"
proof (intro conjI allI impI)
  fix s
  assume "map_of (params u) ''size'' = Some s \<and> stoul s = Some 0"
  then show "code_object_open e co os = Inr (co, os)"
    using assms by (simp add: code_object_open_def acquire_def param_number_def)
next
  fix bytes
  assume h: "protocol u = ''file'' \<and> map_of (params u) ''size'' = None \<and>
            ifstream e (decoded_path u) = Some bytes \<and> offset \<le> length bytes \<and>
            can_allocate e (length bytes - offset)"
  then have "acquire e (m_uri co) u os =
      Buffer (drop offset bytes) (log_event (Open_file (decoded_path u)) os)"
    using assms(2) by (simp add: acquire_def param_number_def Let_def read_at_to_end)
  then show "code_object_open e co os =
              Inr (materialize e (drop offset bytes) co (log_event (Open_file (decoded_path u)) os))"
    using assms(1) by (simp add: code_object_open_def)
qed

theorem open_size_parameter_witness:
  "parse_uri (m_uri (sample_code_object ''file:///tmp/a.co?offset=0&size=0''))
     = Inr \<lparr>protocol = ''file'', decoded_path = ''/tmp/a.co'',
            params = [(''offset'', ''0''), (''size'', ''0'')]\<rparr> \<and>
   param_number \<lparr>protocol = ''file'', decoded_path = ''/tmp/a.co'',
            params = [(''offset'', ''0''), (''size'', ''0'')]\<rparr> ''offset'' = Some 0 \<and>
   stoul ''0'' = Some 0 \<and>
   code_object_open sample_env (sample_code_object ''file:///tmp/a.co?offset=0&size=0'') sample_os
     = Inr (sample_code_object ''file:///tmp/a.co?offset=0&size=0'', sample_os) \<and>
   parse_uri (m_uri (sample_code_object ''file:///tmp/a.co?offset=0''))
     = Inr \<lparr>protocol = ''file'', decoded_path = ''/tmp/a.co'', params = [(''offset'', ''0'')]\<rparr> \<and>
   ifstream sample_env ''/tmp/a.co'' = Some ''0123456789'' \<and>
   code_object_open sample_env (sample_code_object ''file:///tmp/a.co?offset=0'') sample_os
     = Inr (materialize sample_env ''0123456789'' (sample_code_object ''file:///tmp/a.co?offset=0'')
             (log_event (Open_file ''/tmp/a.co'') sample_os))"
proof -
  let ?u0 = "\<lparr>protocol = ''file'', decoded_path = ''/tmp/a.co'',
            params = [(''offset'', ''0''), (''size'', ''0'')]\<rparr>"
  let ?u1 = "\<lparr>protocol = ''file'', decoded_path = ''/tmp/a.co'', params = [(''offset'', ''0'')]\<rparr>"
  have a1: "parse_uri (m_uri (sample_code_object ''file:///tmp/a.co?offset=0&size=0'')) = Inr ?u0"
    by (simp add: sample_code_object_def parse_size0)
  have a2: "param_number ?u0 ''offset'' = Some 0"
    by (simp add: param_number_def stoul_0)
  have a3: "map_of (params ?u0) ''size'' = Some ''0'' \<and> stoul ''0'' = Some 0"
    by (simp add: stoul_0)
  have a: "code_object_open sample_env (sample_code_object ''file:///tmp/a.co?offset=0&size=0'') sample_os
     = Inr (sample_code_object ''file:///tmp/a.co?offset=0&size=0'', sample_os)"
    using open_size_parameter [OF a1 a2, of sample_env sample_os] a3 by blast
  have b1: "parse_uri (m_uri (sample_code_object ''file:///tmp/a.co?offset=0'')) = Inr ?u1"
    by (simp add: sample_code_object_def parse_nosize)
  have b2: "param_number ?u1 ''offset'' = Some 0"
    by (simp add: param_number_def stoul_0)
  have b3: "protocol ?u1 = ''file'' \<and> map_of (params ?u1) ''size'' = None \<and>
            ifstream sample_env (decoded_path ?u1) = Some ''0123456789'' \<and>
            0 \<le> length ''0123456789'' \<and> can_allocate sample_env (length ''0123456789'' - 0)"
    by (simp add: sample_env_def)
  have "code_object_open sample_env (sample_code_object ''file:///tmp/a.co?offset=0'') sample_os
     = Inr (materialize sample_env (drop 0 ''0123456789'') (sample_code_object ''file:///tmp/a.co?offset=0'')
             (log_event (Open_file (decoded_path ?u1)) sample_os))"
    using open_size_parameter [OF b1 b2, of sample_env sample_os] b3 by blast
  then have b: "code_object_open sample_env (sample_code_object ''file:///tmp/a.co?offset=0'') sample_os
     = Inr (materialize sample_env ''0123456789'' (sample_code_object ''file:///tmp/a.co?offset=0'')
             (log_event (Open_file ''/tmp/a.co'') sample_os))"
    by simp
  have f: "ifstream sample_env ''/tmp/a.co'' = Some ''0123456789''"
    by (simp add: sample_env_def)
  from a1 a2 a3 a b1 f b show ?thesis by blast
qed

text \<open>
  The claim as stated fails at its own example: with \<^verbatim>\<open>size=0\<close> in the URI the existing file
  is not read and the object is not open after the call, while without the size parameter
  the whole file is read and the object is open.
\<close>

theorem open_size_zero_counterexample:
  "ifstream sample_env ''/tmp/a.co'' = Some ''0123456789'' \<and>
   code_object_open sample_env (sample_code_object ''file:///tmp/a.co?offset=0&size=0'') sample_os
     = Inr (sample_code_object ''file:///tmp/a.co?offset=0&size=0'', sample_os) \<and>
   \<not> is_open (sample_code_object ''file:///tmp/a.co?offset=0&size=0'') \<and>
   code_object_open sample_env (sample_code_object ''file:///tmp/a.co?offset=0'') sample_os
     = Inr ((sample_code_object ''file:///tmp/a.co?offset=0'')\<lparr>m_mem_size := 0x1800, m_fd := Some 0\<rparr>,
            sample_open_os)"
  using open_size0 open_nosize
  by (simp add: is_open_def sample_code_object_def sample_env_def)

lemma acquire_Buffer_file:
  assumes "acquire e uri u os = Buffer buf os'" and "protocol u = ''file''"
    and "param_number u ''offset'' \<noteq> None" and "param_number u ''size'' \<noteq> None"
  shows "io_log os' = io_log os @ [Open_file (decoded_path u)]"
  using assms
  by (auto simp: acquire_def log_event_def Let_def split: option.splits if_splits)

lemma acquire_Buffer_memory:
  assumes "acquire e uri u os = Buffer buf os'" and "protocol u = ''memory''"
    and "param_number u ''offset'' = Some offset" and "param_number u ''size'' = Some size'"
    and "can_allocate e size'"
  shows "io_log os' = io_log os @ [Read_memory (of_nat offset) size']"
  using assms
  by (auto simp: acquire_def log_event_def Let_def split: option.splits if_splits)

text \<open>
  Claim C4, as the code has it. \<^verbatim>\<open>open\<close> does not ask whether the object is open. When a call
  on an object without a descriptor has opened it, with the events \<open>evs\<close> of the acquisition
  and then the creation of the temporary file in the record of what was done, a second
  call in the same environment succeeds again and does the work again: it adds the same
  events \<open>evs\<close> to the record, creates and writes another temporary file with the same
  bytes, and replaces the descriptor of the object by the new one. For a \<^verbatim>\<open>file\<close> URI whose
  offset and size are absent or numbers the events are the opening of the file, for a
  \<^verbatim>\<open>memory\<close> URI whose buffer can be allocated they are the reading of the memory: the
  source is read again. The object stays open and nothing else in it changes; in
  particular the size in memory is the same.
\<close>

theorem open_again:
  assumes "code_object_open e co os = Inr (co1, os1)" and "m_fd co = None" and "is_open co1"
  shows "\<exists>bytes evs os2 u.
     parse_uri (m_uri co) = Inr u \<and>
     m_fd co1 = Some (length (tmp_files os)) \<and>
     tmp_files os1 = tmp_files os @ [bytes] \<and>
     io_log os1 = io_log os @ evs @ [Create_tmpfile (length (tmp_files os))] \<and>
     (protocol u = ''file'' \<and> param_number u ''offset'' \<noteq> None \<and>
        param_number u ''size'' \<noteq> None \<longrightarrow> evs = [Open_file (decoded_path u)]) \<and>
     (\<forall>offset size'. protocol u = ''memory'' \<and> param_number u ''offset'' = Some offset \<and>
        param_number u ''size'' = Some size' \<and> can_allocate e size' \<longrightarrow>
        evs = [Read_memory (of_nat offset) size']) \<and>
     code_object_open e co1 os1 = Inr (co1\<lparr>m_fd := Some (length (tmp_files os1))\<rparr>, os2) \<and>
     tmp_files os2 = tmp_files os1 @ [bytes] \<and>
     io_log os2 = io_log os1 @ evs @ [Create_tmpfile (length (tmp_files os1))]"
proof -
  obtain u where u: "parse_uri (m_uri co) = Inr u"
    using assms(1) by (auto simp: code_object_open_def split: sum.splits)
  have open1: "m_fd co1 \<noteq> None" using assms(3) by (simp add: is_open_def)
  obtain buf os' where acq: "acquire e (m_uri co) u os = Buffer buf os'"
    and mat: "materialize e buf co os' = (co1, os1)"
    using assms(1,2) u open1
    by (cases "acquire e (m_uri co) u os") (auto simp: code_object_open_def)
  from acquire_Buffer [OF acq] obtain evs where
    os': "os' = os\<lparr>io_log := io_log os @ evs\<rparr>"
    and again: "\<And>os2. acquire e (m_uri co) u os2 = Buffer buf (os2\<lparr>io_log := io_log os2 @ evs\<rparr>)"
    by blast
  from materialize_success [OF mat assms(2) open1] obtain elf phdrs ms where
    ok: "tmpfile_ok e" "write_count e buf = length buf" "elf_begin e buf = Some elf"
      "elf_phdrs elf = Some phdrs" "phdr_loop phdrs (m_mem_size co) = (ms, True)"
    and co1: "co1 = co\<lparr>m_mem_size := ms, m_fd := Some (length (tmp_files os'))\<rparr>"
    and os1: "os1 = log_event (Create_tmpfile (length (tmp_files os')))
                      (os'\<lparr>tmp_files := tmp_files os' @ [buf]\<rparr>)"
    by blast
  have idem: "phdr_loop phdrs ms = (ms, True)" using ok(5) by (rule phdr_loop_idem)
  let ?os2 = "log_event (Create_tmpfile (length (tmp_files os1)))
                ((os1\<lparr>io_log := io_log os1 @ evs\<rparr>)\<lparr>tmp_files := tmp_files os1 @ [buf]\<rparr>)"
  have second: "code_object_open e co1 os1 = Inr (co1\<lparr>m_fd := Some (length (tmp_files os1))\<rparr>, ?os2)"
    using u again [of os1] ok(1-4) idem
    by (simp add: code_object_open_def co1 materialize_def Let_def)
  have log': "io_log os' = io_log os @ evs" using os' by simp
  have fil: "evs = [Open_file (decoded_path u)]"
    if "protocol u = ''file'' \<and> param_number u ''offset'' \<noteq> None \<and>
        param_number u ''size'' \<noteq> None"
    using acquire_Buffer_file [OF acq] that log' by simp
  have memo: "evs = [Read_memory (of_nat offset) size']"
    if "protocol u = ''memory'' \<and> param_number u ''offset'' = Some offset \<and>
        param_number u ''size'' = Some size' \<and> can_allocate e size'" for offset size'
    using acquire_Buffer_memory [OF acq, of offset size'] that log' by simp
  have c1: "m_fd co1 = Some (length (tmp_files os))" by (simp add: co1 os')
  have c2: "tmp_files os1 = tmp_files os @ [buf]" by (simp add: os1 os' log_event_def)
  have c3: "io_log os1 = io_log os @ evs @ [Create_tmpfile (length (tmp_files os))]"
    by (simp add: os1 os' log_event_def)
  have c4: "protocol u = ''file'' \<and> param_number u ''offset'' \<noteq> None \<and>
        param_number u ''size'' \<noteq> None \<longrightarrow> evs = [Open_file (decoded_path u)]"
    using fil by blast
  have c5: "\<forall>offset size'. protocol u = ''memory'' \<and> param_number u ''offset'' = Some offset \<and>
        param_number u ''size'' = Some size' \<and> can_allocate e size' \<longrightarrow>
        evs = [Read_memory (of_nat offset) size']"
    using memo by blast
  have c7: "tmp_files ?os2 = tmp_files os1 @ [buf]" by (simp add: log_event_def)
  have c8: "io_log ?os2 = io_log os1 @ evs @ [Create_tmpfile (length (tmp_files os1))]"
    by (simp add: log_event_def)
  from u c1 c2 c3 c4 c5 second c7 c8 show ?thesis
    by (intro exI [of _ buf] exI [of _ evs] exI [of _ ?os2] exI [of _ u] conjI)
qed

theorem open_again_witness:
  "code_object_open sample_env (sample_code_object ''file:///tmp/a.co'') sample_os
     = Inr (sample_open_code_object, sample_open_os) \<and>
   m_fd (sample_code_object ''file:///tmp/a.co'') = None \<and>
   is_open sample_open_code_object \<and>
   (\<exists>os2. code_object_open sample_env sample_open_code_object sample_open_os
       = Inr (sample_open_code_object\<lparr>m_fd := Some (length (tmp_files sample_open_os))\<rparr>, os2) \<and>
      tmp_files os2 = [''0123456789'', ''0123456789''] \<and>
      io_log os2 = [Open_file ''/tmp/a.co'', Create_tmpfile 0,
                    Open_file ''/tmp/a.co'', Create_tmpfile 1])"
proof -
  let ?co = "sample_code_object ''file:///tmp/a.co''"
  have h1: "code_object_open sample_env ?co sample_os
     = Inr (sample_open_code_object, sample_open_os)"
    by (rule open_plain)
  have h2: "m_fd ?co = None"
    by (simp add: sample_code_object_def)
  have h3: "is_open sample_open_code_object"
    by (simp add: is_open_def sample_open_code_object_def)
  from open_again [OF h1 h2 h3] obtain bytes evs os2 u where
    r: "tmp_files sample_open_os = tmp_files sample_os @ [bytes]"
      "io_log sample_open_os = io_log sample_os @ evs @ [Create_tmpfile (length (tmp_files sample_os))]"
      "code_object_open sample_env sample_open_code_object sample_open_os
         = Inr (sample_open_code_object\<lparr>m_fd := Some (length (tmp_files sample_open_os))\<rparr>, os2)"
      "tmp_files os2 = tmp_files sample_open_os @ [bytes]"
      "io_log os2 = io_log sample_open_os @ evs @ [Create_tmpfile (length (tmp_files sample_open_os))]"
    by blast
  from r(1) have b: "bytes = ''0123456789''"
    by (simp add: sample_open_os_def sample_os_def)
  from r(2) have e: "evs = [Open_file ''/tmp/a.co'']"
    by (simp add: sample_open_os_def sample_os_def)
  from r(4) b have t2: "tmp_files os2 = [''0123456789'', ''0123456789'']"
    by (simp add: sample_open_os_def)
  from r(5) e have l2: "io_log os2 = [Open_file ''/tmp/a.co'', Create_tmpfile 0,
                    Open_file ''/tmp/a.co'', Create_tmpfile 1]"
    by (simp add: sample_open_os_def)
  from r(3) t2 l2 have "\<exists>os2. code_object_open sample_env sample_open_code_object sample_open_os
       = Inr (sample_open_code_object\<lparr>m_fd := Some (length (tmp_files sample_open_os))\<rparr>, os2) \<and>
      tmp_files os2 = [''0123456789'', ''0123456789''] \<and>
      io_log os2 = [Open_file ''/tmp/a.co'', Create_tmpfile 0,
                    Open_file ''/tmp/a.co'', Create_tmpfile 1]"
    by blast
  with h1 h2 h3 show ?thesis by (intro conjI)
qed

text \<open>
  The claim as stated fails on the sample: the second call opens the file again, creates a
  second temporary file and changes the descriptor from 0 to 1.
\<close>

theorem open_again_counterexample:
  "code_object_open sample_env (sample_code_object ''file:///tmp/a.co'') sample_os
     = Inr (sample_open_code_object, sample_open_os) \<and>
   m_fd sample_open_code_object = Some 0 \<and>
   sample_open_os = \<lparr>tmp_files = [''0123456789''],
                      io_log = [Open_file ''/tmp/a.co'', Create_tmpfile 0]\<rparr> \<and>
   code_object_open sample_env sample_open_code_object sample_open_os
     = Inr (sample_open_code_object\<lparr>m_fd := Some 1\<rparr>,
            \<lparr>tmp_files = [''0123456789'', ''0123456789''],
             io_log = [Open_file ''/tmp/a.co'', Create_tmpfile 0,
                       Open_file ''/tmp/a.co'', Create_tmpfile 1]\<rparr>)"
  using open_plain open_plain_again
  by (simp add: sample_open_code_object_def sample_open_os_def)

text \<open>
  Claim C5, as the code has it. When the bytes have been acquired and written to the
  temporary file and the ELF parsing then fails (\<^verbatim>\<open>elf_begin\<close>, \<^verbatim>\<open>elf_getphdrnum\<close> or a
  \<^verbatim>\<open>gelf_getphdr\<close>), \<^verbatim>\<open>open\<close> returns without recording the descriptor: the temporary file
  exists, the descriptor member of the object is what it was, and an object that was not
  open is not open afterwards. When \<^verbatim>\<open>elf_begin\<close> or \<^verbatim>\<open>elf_getphdrnum\<close> fails the code object
  is unchanged altogether, so the size in memory keeps its prior value.
\<close>

theorem open_elf_failure:
  assumes "parse_uri (m_uri co) = Inr u"
    and "acquire e (m_uri co) u os = Buffer buffer os'"
    and "tmpfile_ok e" and "write_count e buffer = length buffer"
  shows "\<exists>co' os''.
     code_object_open e co os = Inr (co', os'') \<and>
     tmp_files os'' = tmp_files os' @ [buffer] \<and>
     (elf_begin e buffer = None \<or>
      (\<exists>elf. elf_begin e buffer = Some elf \<and> elf_phdrs elf = None) \<longrightarrow> co' = co) \<and>
     (elf_begin e buffer = None \<or>
      (\<exists>elf. elf_begin e buffer = Some elf \<and>
         (elf_phdrs elf = None \<or> (\<exists>phdrs. elf_phdrs elf = Some phdrs \<and> None \<in> set phdrs)))
      \<longrightarrow> m_fd co' = m_fd co \<and> (\<not> is_open co \<longrightarrow> \<not> is_open co'))"
proof -
  obtain co' os'' where m: "materialize e buffer co os' = (co', os'')"
    by (cases "materialize e buffer co os'") auto
  have 1: "code_object_open e co os = Inr (co', os'')"
    using assms(1,2) m by (simp add: code_object_open_def)
  have 2: "tmp_files os'' = tmp_files os' @ [buffer]"
    using m assms(3,4)
    by (auto simp: materialize_def Let_def log_event_def split: option.splits prod.splits if_splits)
  have 3: "co' = co"
    if "elf_begin e buffer = None \<or> (\<exists>elf. elf_begin e buffer = Some elf \<and> elf_phdrs elf = None)"
    using that m assms(3,4) by (auto simp: materialize_def Let_def)
  have 4: "m_fd co' = m_fd co"
    if c: "elf_begin e buffer = None \<or>
      (\<exists>elf. elf_begin e buffer = Some elf \<and>
         (elf_phdrs elf = None \<or> (\<exists>phdrs. elf_phdrs elf = Some phdrs \<and> None \<in> set phdrs)))"
  proof (cases "elf_begin e buffer = None \<or> (\<exists>elf. elf_begin e buffer = Some elf \<and> elf_phdrs elf = None)")
    case True
    then show ?thesis using 3 by simp
  next
    case False
    with c obtain elf phdrs where
      e: "elf_begin e buffer = Some elf" "elf_phdrs elf = Some phdrs" "None \<in> set phdrs"
      by auto
    obtain ms where "phdr_loop phdrs (m_mem_size co) = (ms, False)"
      using phdr_loop_fails [OF e(3), of "m_mem_size co"]
      by (cases "phdr_loop phdrs (m_mem_size co)") auto
    then have "co' = co\<lparr>m_mem_size := ms\<rparr>"
      using m assms(3,4) e by (simp add: materialize_def Let_def)
    then show ?thesis by simp
  qed
  show ?thesis
    using 1 2 3 4 by (intro exI [of _ co'] exI [of _ os'']) (auto simp: is_open_def)
qed

theorem open_elf_failure_witness:
  "parse_uri (m_uri (sample_code_object ''file:///tmp/a.co?offset=4''))
     = Inr \<lparr>protocol = ''file'', decoded_path = ''/tmp/a.co'', params = [(''offset'', ''4'')]\<rparr> \<and>
   acquire sample_env (m_uri (sample_code_object ''file:///tmp/a.co?offset=4''))
       \<lparr>protocol = ''file'', decoded_path = ''/tmp/a.co'', params = [(''offset'', ''4'')]\<rparr> sample_os
     = Buffer ''456789'' (log_event (Open_file ''/tmp/a.co'') sample_os) \<and>
   tmpfile_ok sample_env \<and>
   write_count sample_env ''456789'' = length ''456789'' \<and>
   elf_begin sample_env ''456789'' = None \<and>
   (\<exists>os''. code_object_open sample_env (sample_code_object ''file:///tmp/a.co?offset=4'') sample_os
        = Inr (sample_code_object ''file:///tmp/a.co?offset=4'', os'') \<and>
      tmp_files os'' = [''456789''])"
proof -
  let ?co = "sample_code_object ''file:///tmp/a.co?offset=4''"
  let ?u = "\<lparr>protocol = ''file'', decoded_path = ''/tmp/a.co'', params = [(''offset'', ''4'')]\<rparr>"
  have h1: "parse_uri (m_uri ?co) = Inr ?u"
    by (simp add: sample_code_object_def parse_offset4)
  have h2: "acquire sample_env (m_uri ?co) ?u sample_os
     = Buffer ''456789'' (log_event (Open_file ''/tmp/a.co'') sample_os)"
    by (simp add: acquire_def param_number_def stoul_4 sample_env_def read_at_def Let_def)
  have h3: "tmpfile_ok sample_env" by (simp add: sample_env_def)
  have h4: "write_count sample_env ''456789'' = length ''456789''" by (simp add: sample_env_def)
  have h5: "elf_begin sample_env ''456789'' = None" by (simp add: sample_env_def)
  from open_elf_failure [OF h1 h2 h3 h4] obtain co' os'' where
    r: "code_object_open sample_env ?co sample_os = Inr (co', os'')"
      "tmp_files os'' = tmp_files (log_event (Open_file ''/tmp/a.co'') sample_os) @ [''456789'']"
      "elf_begin sample_env ''456789'' = None \<or>
        (\<exists>elf. elf_begin sample_env ''456789'' = Some elf \<and> elf_phdrs elf = None) \<longrightarrow> co' = ?co"
    by blast
  from r(3) h5 have "co' = ?co" by blast
  moreover from r(2) have "tmp_files os'' = [''456789'']"
    by (simp add: log_event_def sample_os_def)
  ultimately have "\<exists>os''. code_object_open sample_env ?co sample_os = Inr (?co, os'') \<and>
      tmp_files os'' = [''456789'']"
    using r(1) by blast
  with h1 h2 h3 h4 h5 show ?thesis by blast
qed

text \<open>
  The claim as stated fails on the sample: the bytes from offset 4 are written to the
  temporary file, libelf does not accept them, and the object is not open after the call.
\<close>

theorem open_elf_failure_counterexample:
  "code_object_open sample_env (sample_code_object ''file:///tmp/a.co?offset=4'') sample_os
     = Inr (sample_code_object ''file:///tmp/a.co?offset=4'',
            \<lparr>tmp_files = [''456789''],
             io_log = [Open_file ''/tmp/a.co'', Create_tmpfile 0, Warning ''elf_begin failed'']\<rparr>) \<and>
   \<not> is_open (sample_code_object ''file:///tmp/a.co?offset=4'')"
  using open_offset4
  by (simp add: is_open_def sample_code_object_def)

section \<open>Loading the debug information\<close>

text \<open>
  The two maps that \<^verbatim>\<open>load_debug_info\<close> builds are \<^verbatim>\<open>std::map\<close>s: their keys are strictly
  increasing.
\<close>

lemma std_map_ok_add_line: "std_map_ok m \<Longrightarrow> std_map_ok (add_line la l m)"
  by (simp add: add_line_def Let_def std_map_ok_insert)

lemma std_map_ok_fold_add_line: "std_map_ok m \<Longrightarrow> std_map_ok (fold (add_line la) ls m)"
  by (induction ls arbitrary: m) (simp_all add: std_map_ok_add_line)

lemma load_cus_ok:
  assumes "load_cus la dbg i maps = Some r"
  shows "std_map_ok (fst maps) \<and> std_map_ok (snd maps) \<longrightarrow> std_map_ok (fst r) \<and> std_map_ok (snd r)"
proof (rule load_cus.raw_induct
    [where P = "\<lambda>la dbg i maps r. std_map_ok (fst maps) \<and> std_map_ok (snd maps) \<longrightarrow>
                   std_map_ok (fst r) \<and> std_map_ok (snd r)", OF _ assms], goal_cases)
  case (1 f la dbg i maps r)
  note IH = 1(1) and eq = 1(2)
  show ?case
  proof (cases "i \<ge> length dbg")
    case True
    with eq show ?thesis by simp
  next
    case False
    show ?thesis
    proof (cases "dbg ! i")
      case None
      with False eq have "f la dbg i maps = Some r" by simp
      from IH [OF this] show ?thesis .
    next
      case (Some die)
      let ?cus = "(case (die_lowpc die, die_highpc die) of
                          (Some lowpc, Some highpc) \<Rightarrow>
                            std_map_insert (la + lowpc) (la + highpc) (snd maps)
                        | _ \<Rightarrow> snd maps)"
      have okc: "std_map_ok (snd maps) \<Longrightarrow> std_map_ok ?cus"
        by (auto simp: std_map_ok_insert split: option.splits)
      show ?thesis
      proof (cases "die_srclines die")
        case None
        with False Some eq have "f la dbg i (fst maps, ?cus) = Some r"
          by (simp add: Let_def)
        from IH [OF this] okc show ?thesis by simp
      next
        case lines: (Some lines)
        with False Some eq have
          "f la dbg (i + 1) (fold (add_line la) lines (fst maps), ?cus) = Some r"
          by (simp add: Let_def)
        from IH [OF this] okc show ?thesis by (simp add: std_map_ok_fold_add_line)
      qed
    qed
  qed
qed

lemma load_debug_info_ok:
  assumes "load_debug_info e os co = Some (Inr co')"
    and "m_line_number_map co = None"
    and "m_line_number_map co' = Some lines"
    and "m_compilation_unit_low_high_pc_map co' = Some cus"
  shows "std_map_ok lines \<and> std_map_ok cus"
proof -
  from assms obtain dbg where l: "load_cus (m_load_address co) dbg 0 ([], []) = Some (lines, cus)"
    by (auto simp: load_debug_info_def split: option.splits if_splits)
  from load_cus_ok [OF l] show ?thesis by (simp add: std_map_ok_def)
qed

lemma load_debug_info_no_dwarf:
  assumes "m_fd co = Some fd"
    and "m_line_number_map co = None \<or> m_compilation_unit_low_high_pc_map co = None"
    and "Option.bind (fd_contents os fd) (dwarf_begin e) = None"
  shows "load_debug_info e os co = Some (Inr co)"
  using assms by (auto simp: load_debug_info_def)


section \<open>Disassembly\<close>

subsection \<open>The window and the loop\<close>





lemma disassemble_window_no_lines:
  assumes "m_line_number_map co = Some []"
    and "m_compilation_unit_low_high_pc_map co = Some cus"
  shows "\<exists>end_pc. disassemble_window co pc = Inr (pc, end_pc)"
proof (cases "std_map_upper_bound pc cus = 0")
  case True
  with assms show ?thesis
    by (simp add: disassemble_window_def std_map_upper_bound_def)
next
  case False
  then have "fst (cus ! (std_map_upper_bound pc cus - 1)) \<le> pc"
    by (intro upper_bound_prefix) simp
  with assms False show ?thesis
    by (cases "cus ! (std_map_upper_bound pc cus - 1)")
       (auto simp: disassemble_window_def Let_def max_def
          std_map_upper_bound_def [where m = "[]"])
qed


lemma disassemble_window_absent:
  "m_line_number_map co = None \<or> m_compilation_unit_low_high_pc_map co = None \<Longrightarrow>
   disassemble_window co pc = Inl Empty_optional"
  by (auto simp: disassemble_window_def Let_def split: option.splits)

lemma disassemble_after_load:
  assumes "largest_instruction_size e = Some b" and "load_debug_info e os co = Some (Inr co')"
    and "disassemble_window co' pc = Inr (s, t)"
  shows "find_symbol e os co' pc = Inr (symbol, co'') \<Longrightarrow>
           disassemble e os co pc fuel = Some (Inr (instruction_loop e b s t fuel, co''))"
    and "find_symbol e os co' pc = Inl err \<Longrightarrow> disassemble e os co pc fuel = Some (Inl err)"
  using assms by (simp_all add: disassemble_def)


lemmas symbol_eval = find_symbol_def load_symbol_map_def fd_contents_def sample_env_def
  sample_open_os_def sample_open_code_object_def sample_code_object_def sample_elf_def
  sample_loaded_code_object_def add_section_def add_symbol_def SHT_SYMTAB_def SHT_DYNSYM_def
  STT_FUNC_def SHN_UNDEF_def GELF_ST_TYPE_def std_map_find_def std_map_upper_bound_def Let_def


subsection \<open>Disassembly without line numbers\<close>

text \<open>
  Claim C6, as the code has it. \<^verbatim>\<open>load_debug_info\<close> returns at \<^verbatim>\<open>if (!dbg) return;\<close> when
  libdw finds no debug information in the image, before either map is emplaced, and the
  code object is what it was. \<^verbatim>\<open>disassemble\<close> does not look at whether the maps are there:
  its next step is \<^verbatim>\<open>m_line_number_map->upper_bound (pc)\<close> on the empty optional, which is
  the result \<open>Empty_optional\<close> here. No window is chosen and nothing is listed. Only when
  the maps have been built and the line-number map is empty does the window start at
  \<open>pc\<close>: then the listing is the loop from \<open>pc\<close>.
\<close>

theorem disassemble_without_line_numbers:
  assumes "largest_instruction_size e = Some buffer_size" and "m_fd co = Some fd"
  shows "((m_line_number_map co = None \<or> m_compilation_unit_low_high_pc_map co = None) \<and>
          Option.bind (fd_contents os fd) (dwarf_begin e) = None \<longrightarrow>
            load_debug_info e os co = Some (Inr co) \<and>
            disassemble e os co pc fuel = Some (Inl Empty_optional)) \<and>
         (\<forall>co' cus.
            load_debug_info e os co = Some (Inr co') \<and> m_line_number_map co' = Some [] \<and>
            m_compilation_unit_low_high_pc_map co' = Some cus \<longrightarrow>
            (\<exists>end_pc. disassemble_window co' pc = Inr (pc, end_pc) \<and>
               (\<forall>symbol co''. find_symbol e os co' pc = Inr (symbol, co'') \<longrightarrow>
                  disassemble e os co pc fuel =
                    Some (Inr (instruction_loop e buffer_size pc end_pc fuel, co''))) \<and>
               (\<forall>err. find_symbol e os co' pc = Inl err \<longrightarrow>
                  disassemble e os co pc fuel = Some (Inl err))))"
proof (rule conjI)
  show "(m_line_number_map co = None \<or> m_compilation_unit_low_high_pc_map co = None) \<and>
          Option.bind (fd_contents os fd) (dwarf_begin e) = None \<longrightarrow>
            load_debug_info e os co = Some (Inr co) \<and>
            disassemble e os co pc fuel = Some (Inl Empty_optional)"
  proof
    assume h: "(m_line_number_map co = None \<or> m_compilation_unit_low_high_pc_map co = None) \<and>
          Option.bind (fd_contents os fd) (dwarf_begin e) = None"
    have l: "load_debug_info e os co = Some (Inr co)"
      using h by (intro load_debug_info_no_dwarf [OF assms(2)]) simp_all
    have w: "disassemble_window co pc = Inl Empty_optional"
      using h by (intro disassemble_window_absent) simp
    show "load_debug_info e os co = Some (Inr co) \<and>
            disassemble e os co pc fuel = Some (Inl Empty_optional)"
      using assms(1) l w by (simp add: disassemble_def)
  qed
next
  show "\<forall>co' cus.
            load_debug_info e os co = Some (Inr co') \<and> m_line_number_map co' = Some [] \<and>
            m_compilation_unit_low_high_pc_map co' = Some cus \<longrightarrow>
            (\<exists>end_pc. disassemble_window co' pc = Inr (pc, end_pc) \<and>
               (\<forall>symbol co''. find_symbol e os co' pc = Inr (symbol, co'') \<longrightarrow>
                  disassemble e os co pc fuel =
                    Some (Inr (instruction_loop e buffer_size pc end_pc fuel, co''))) \<and>
               (\<forall>err. find_symbol e os co' pc = Inl err \<longrightarrow>
                  disassemble e os co pc fuel = Some (Inl err)))"
  proof (intro allI impI)
    fix co' cus
    assume h: "load_debug_info e os co = Some (Inr co') \<and> m_line_number_map co' = Some [] \<and>
            m_compilation_unit_low_high_pc_map co' = Some cus"
    then have l: "load_debug_info e os co = Some (Inr co')"
      and m1: "m_line_number_map co' = Some []"
      and m2: "m_compilation_unit_low_high_pc_map co' = Some cus"
      by simp_all
    from disassemble_window_no_lines [OF m1 m2, of pc]
    obtain end_pc where w: "disassemble_window co' pc = Inr (pc, end_pc)" by blast
    have d1: "\<forall>symbol co''. find_symbol e os co' pc = Inr (symbol, co'') \<longrightarrow>
                  disassemble e os co pc fuel =
                    Some (Inr (instruction_loop e buffer_size pc end_pc fuel, co''))"
      using disassemble_after_load(1) [OF assms(1) l w] by blast
    have d2: "\<forall>err. find_symbol e os co' pc = Inl err \<longrightarrow>
                  disassemble e os co pc fuel = Some (Inl err)"
      using disassemble_after_load(2) [OF assms(1) l w] by blast
    from w d1 d2
    show "\<exists>end_pc. disassemble_window co' pc = Inr (pc, end_pc) \<and>
               (\<forall>symbol co''. find_symbol e os co' pc = Inr (symbol, co'') \<longrightarrow>
                  disassemble e os co pc fuel =
                    Some (Inr (instruction_loop e buffer_size pc end_pc fuel, co''))) \<and>
               (\<forall>err. find_symbol e os co' pc = Inl err \<longrightarrow>
                  disassemble e os co pc fuel = Some (Inl err))"
      by (intro exI [of _ end_pc] conjI)
  qed
qed

text \<open>
  On the sample: an image that libelf reads and in which libdw finds no debug information
  gives \<open>Empty_optional\<close>; the loaded sample with an empty line-number map is listed from
  \<open>pc\<close>.
\<close>

theorem disassemble_without_line_numbers_witness:
  "largest_instruction_size sample_env = Some 8 \<and>
   m_fd sample_open_code_object = Some 0 \<and>
   m_line_number_map sample_open_code_object = None \<and>
   fd_contents (sample_open_os\<lparr>tmp_files := [''0123'']\<rparr>) 0 = Some ''0123'' \<and>
   elf_begin sample_env ''0123'' = Some sample_elf \<and>
   dwarf_begin sample_env ''0123'' = None \<and>
   load_debug_info sample_env (sample_open_os\<lparr>tmp_files := [''0123'']\<rparr>) sample_open_code_object
     = Some (Inr sample_open_code_object) \<and>
   disassemble sample_env (sample_open_os\<lparr>tmp_files := [''0123'']\<rparr>) sample_open_code_object 0x114 5
     = Some (Inl Empty_optional) \<and>
   m_fd (sample_loaded_code_object\<lparr>m_line_number_map := Some []\<rparr>) = Some 0 \<and>
   load_debug_info sample_env sample_open_os (sample_loaded_code_object\<lparr>m_line_number_map := Some []\<rparr>)
     = Some (Inr (sample_loaded_code_object\<lparr>m_line_number_map := Some []\<rparr>)) \<and>
   disassemble_window (sample_loaded_code_object\<lparr>m_line_number_map := Some []\<rparr>) 0x150
     = Inr (0x150, 0x170) \<and>
   disassemble sample_env sample_open_os (sample_loaded_code_object\<lparr>m_line_number_map := Some []\<rparr>)
       0x150 6
     = Some (Inr ([Instruction 0x150, Instruction 0x158, Instruction 0x160, Instruction 0x168],
                  sample_loaded_code_object\<lparr>m_line_number_map := Some []\<rparr>))"
proof -
  let ?os = "sample_open_os\<lparr>tmp_files := [''0123'']\<rparr>"
  let ?co = "sample_loaded_code_object\<lparr>m_line_number_map := Some []\<rparr>"
  let ?cus = "[(0x100, 0x160), (0x110, 0x120), (0xFFFFFFFFFFFFFFC0, 0xFFFFFFFFFFFFFFFF)]
                :: (u64 \<times> u64) list"
  have h1: "largest_instruction_size sample_env = Some 8"
    by (simp add: sample_env_def)
  have h2: "m_fd sample_open_code_object = Some 0"
    by (simp add: sample_open_code_object_def)
  have h3: "m_line_number_map sample_open_code_object = None"
    by (simp add: sample_open_code_object_def sample_code_object_def)
  have h4: "fd_contents ?os 0 = Some ''0123''"
    by (simp add: fd_contents_def)
  have h5: "dwarf_begin sample_env ''0123'' = None"
    by (simp add: sample_env_def)
  have h6: "elf_begin sample_env ''0123'' = Some sample_elf"
    by (simp add: sample_env_def)
  have b: "Option.bind (fd_contents ?os 0) (dwarf_begin sample_env) = None"
    using h4 h5 by simp
  have a: "load_debug_info sample_env ?os sample_open_code_object = Some (Inr sample_open_code_object)
      \<and> disassemble sample_env ?os sample_open_code_object 0x114 5 = Some (Inl Empty_optional)"
    using disassemble_without_line_numbers [OF h1 h2, of ?os "0x114" 5] h3 b by blast
  have g2: "m_fd ?co = Some 0"
    by (simp add: sample_loaded_code_object_def sample_open_code_object_def)
  have l: "load_debug_info sample_env sample_open_os ?co = Some (Inr ?co)"
    by (simp add: load_debug_info_def sample_loaded_code_object_def sample_open_code_object_def)
  have m1: "m_line_number_map ?co = Some []"
    by simp
  have m2: "m_compilation_unit_low_high_pc_map ?co = Some ?cus"
    by (simp add: sample_loaded_code_object_def)
  have w: "disassemble_window ?co 0x150 = Inr (0x150, 0x170)"
    by (simp add: disassemble_window_def sample_loaded_code_object_def std_map_upper_bound_def
          context_byte_size_def Let_def)
  have s: "find_symbol sample_env sample_open_os ?co 0x150 = Inr (None, ?co)"
    by (simp add: symbol_eval)
  from disassemble_without_line_numbers [OF h1 g2, of sample_open_os "0x150" 6] l m1 m2
  obtain end_pc where w': "disassemble_window ?co 0x150 = Inr (0x150, end_pc)"
    and d: "\<forall>symbol co''. find_symbol sample_env sample_open_os ?co 0x150 = Inr (symbol, co'') \<longrightarrow>
          disassemble sample_env sample_open_os ?co 0x150 6 =
            Some (Inr (instruction_loop sample_env 8 0x150 end_pc 6, co''))"
    by blast
  from w w' have e: "end_pc = 0x170" by simp
  have i: "instruction_loop sample_env 8 0x150 0x170 6
      = [Instruction 0x150, Instruction 0x158, Instruction 0x160, Instruction 0x168]"
    by code_simp
  have "disassemble sample_env sample_open_os ?co 0x150 6 =
            Some (Inr (instruction_loop sample_env 8 0x150 end_pc 6, ?co))"
    using d s by blast
  then have r: "disassemble sample_env sample_open_os ?co 0x150 6
     = Some (Inr ([Instruction 0x150, Instruction 0x158, Instruction 0x160, Instruction 0x168], ?co))"
    unfolding e using i by simp
  from a have a1: "load_debug_info sample_env ?os sample_open_code_object
        = Some (Inr sample_open_code_object)"
    and a2: "disassemble sample_env ?os sample_open_code_object 0x114 5 = Some (Inl Empty_optional)"
    by simp_all
  from h1 h2 h3 h4 h6 h5 a1 a2 g2 l w r show ?thesis by (intro conjI)
qed

subsection \<open>Clamping to the compilation unit\<close>




end
